theory Spec2Isabelle
  imports Complex_Main
begin

section \<open>The heat solver of \<^verbatim>\<open>heat_parallel.c\<close>\<close>

text \<open>
  The program is one C file. Every process of the MPI run executes it on its own copy of
  the file's global variables, so the model is the program of one process: a record of
  the globals, and one function per C function that takes the record and returns it
  updated.

  \<^item> \<^verbatim>\<open>int_t\<close> (\<^verbatim>\<open>int64_t\<close>) is \<open>int\<close>. Signed overflow is undefined in C and an
    index beyond the 64-bit range is far outside every buffer, so no wrap-around is
    written out; \<^verbatim>\<open>/\<close> and \<^verbatim>\<open>%\<close> truncate towards zero (\<open>c_div\<close>, \<open>c_mod\<close>) and
    a zero divisor is the error \<open>DivByZero\<close>.
  \<^item> \<^verbatim>\<open>real_t\<close> (\<^verbatim>\<open>double\<close>) is \<open>real\<close>: the arithmetic is the exact one, without
    rounding.
  \<^item> A buffer obtained from \<^verbatim>\<open>malloc\<close> is a list of cells whose first contents are
    indeterminate: they are a parameter \<open>junk\<close> of the model. A read or a write outside
    the allocated cells is undefined in C and is the error \<open>OutOfBounds\<close>.
  \<^item> What MPI answers (\<^verbatim>\<open>rank\<close>, \<^verbatim>\<open>size\<close>, \<^verbatim>\<open>dims\<close>, \<^verbatim>\<open>coord\<close>) and what the
    broadcast delivers (\<^verbatim>\<open>M\<close>, \<^verbatim>\<open>N\<close>, \<^verbatim>\<open>max_iteration\<close>, \<^verbatim>\<open>snapshot_frequency\<close>)
    are fields of the starting record.
\<close>

subsection \<open>Integers, errors, memory\<close>

type_synonym int_t = int
type_synonym real_t = real

datatype error = DivByZero | OutOfBounds | OpenFailed

definition c_div :: "int_t \<Rightarrow> int_t \<Rightarrow> int_t" where
  "c_div a b = sgn a * sgn b * (\<bar>a\<bar> div \<bar>b\<bar>)"

definition c_mod :: "int_t \<Rightarrow> int_t \<Rightarrow> int_t" where
  "c_mod a b = sgn a * (\<bar>a\<bar> mod \<bar>b\<bar>)"

definition sizeof_real_t :: nat where
  "sizeof_real_t = 8"

definition err_bind :: "error + 'a \<Rightarrow> ('a \<Rightarrow> error + 'b) \<Rightarrow> error + 'b" where
  "err_bind m f = (case m of Inl e \<Rightarrow> Inl e | Inr v \<Rightarrow> f v)"

text \<open>\<^verbatim>\<open>malloc (bytes)\<close>: as many cells as the bytes hold, with contents \<open>junk\<close>. A
  negative byte count is no block at all.\<close>

definition malloc :: "int_t \<Rightarrow> (nat \<Rightarrow> real_t) \<Rightarrow> real_t list" where
  "malloc bytes junk = map junk [0 ..< nat bytes div sizeof_real_t]"

definition load :: "real_t list \<Rightarrow> int_t \<Rightarrow> error + real_t" where
  "load b i = (if 0 \<le> i \<and> i < int (length b) then Inr (b ! nat i) else Inl OutOfBounds)"

definition store :: "real_t list \<Rightarrow> int_t \<Rightarrow> real_t \<Rightarrow> error + real_t list" where
  "store b i v = (if 0 \<le> i \<and> i < int (length b) then Inr (b[nat i := v]) else Inl OutOfBounds)"

text \<open>\<^verbatim>\<open>fwrite (p + start, sizeof(real_t), n, out)\<close> reads \<open>n\<close> consecutive cells.\<close>

definition load_block :: "real_t list \<Rightarrow> int_t \<Rightarrow> int_t \<Rightarrow> error + real_t list" where
  "load_block b start n =
     (if n \<le> 0 then Inr []
      else if 0 \<le> start \<and> start + n \<le> int (length b) then Inr (take (nat n) (drop (nat start) b))
      else Inl OutOfBounds)"

text \<open>\<^verbatim>\<open>for (i = lo; i <= hi; i++) body\<close>, stopping at the first error.\<close>

function for_loop :: "int_t \<Rightarrow> int_t \<Rightarrow> (int_t \<Rightarrow> 's \<Rightarrow> error + 's) \<Rightarrow> 's \<Rightarrow> error + 's" where
  "for_loop i hi body s =
     (if i \<le> hi
      then (case body i s of Inl e \<Rightarrow> Inl e | Inr s' \<Rightarrow> for_loop (i + 1) hi body s')
      else Inr s)"
  by pat_completeness auto
termination
  by (relation "measure (\<lambda>(i, hi, body, s). nat (hi + 1 - i))") auto

declare for_loop.simps [simp del]

subsection \<open>The globals\<close>

datatype line =
    Local_size int int_t int_t
  | Offset int int_t int_t
  | Progress int_t int_t

record state =
  rank :: int
  size_g :: int
  dims0 :: int
  dims1 :: int
  coord0 :: int
  coord1 :: int
  M :: int_t
  N :: int_t
  max_iteration :: int_t
  snapshot_frequency :: int_t
  temp0 :: "real_t list"
  temp1 :: "real_t list"
  thermal_diffusivity :: "real_t list"
  dt :: real_t
  stdout :: "line list"
  can_open :: "string \<Rightarrow> bool"
  files :: "string \<rightharpoonup> real_t list"

text \<open>
  \<open>size_g\<close> is the global \<^verbatim>\<open>size\<close>; \<open>dims0\<close>, \<open>dims1\<close>, \<open>coord0\<close>, \<open>coord1\<close> are
  \<^verbatim>\<open>dims[0]\<close>, \<^verbatim>\<open>dims[1]\<close>, \<^verbatim>\<open>coord[0]\<close>, \<^verbatim>\<open>coord[1]\<close>; \<open>temp0\<close>, \<open>temp1\<close> are the
  blocks \<^verbatim>\<open>temp[0]\<close>, \<^verbatim>\<open>temp[1]\<close> point to. \<open>stdout\<close> is what the process has printed,
  \<open>files\<close> the files under \<^verbatim>\<open>data/\<close> (each a sequence of \<^verbatim>\<open>real_t\<close> values of
  \<open>sizeof_real_t\<close> bytes), and \<open>can_open\<close> says for which names \<^verbatim>\<open>fopen\<close> succeeds.
\<close>

text \<open>The macros \<^verbatim>\<open>T\<close>, \<^verbatim>\<open>T_next\<close> and \<^verbatim>\<open>THERMAL_DIFFUSIVITY\<close> share one index.\<close>

definition idx :: "state \<Rightarrow> int_t \<Rightarrow> int_t \<Rightarrow> int_t" where
  "idx g x y = y * (N g + 2) + x"

definition T :: "state \<Rightarrow> int_t \<Rightarrow> int_t \<Rightarrow> error + real_t" where
  "T g x y = load (temp0 g) (idx g x y)"

definition T_next :: "state \<Rightarrow> int_t \<Rightarrow> int_t \<Rightarrow> error + real_t" where
  "T_next g x y = load (temp1 g) (idx g x y)"

definition THERMAL_DIFFUSIVITY :: "state \<Rightarrow> int_t \<Rightarrow> int_t \<Rightarrow> error + real_t" where
  "THERMAL_DIFFUSIVITY g x y = load (thermal_diffusivity g) (idx g x y)"

definition T_set :: "int_t \<Rightarrow> int_t \<Rightarrow> real_t \<Rightarrow> state \<Rightarrow> error + state" where
  "T_set x y v g = err_bind (store (temp0 g) (idx g x y) v) (\<lambda>b. Inr (g\<lparr>temp0 := b\<rparr>))"

definition T_next_set :: "int_t \<Rightarrow> int_t \<Rightarrow> real_t \<Rightarrow> state \<Rightarrow> error + state" where
  "T_next_set x y v g = err_bind (store (temp1 g) (idx g x y) v) (\<lambda>b. Inr (g\<lparr>temp1 := b\<rparr>))"

definition THERMAL_DIFFUSIVITY_set :: "int_t \<Rightarrow> int_t \<Rightarrow> real_t \<Rightarrow> state \<Rightarrow> error + state" where
  "THERMAL_DIFFUSIVITY_set x y v g =
     err_bind (store (thermal_diffusivity g) (idx g x y) v) (\<lambda>b. Inr (g\<lparr>thermal_diffusivity := b\<rparr>))"

subsection \<open>\<^verbatim>\<open>swap\<close>\<close>

text \<open>Lines 49 to 56, at its one call \<^verbatim>\<open>swap (&temp[0], &temp[1])\<close>: the two pointers
  change places, the blocks stay as they are.\<close>

definition swap :: "state \<Rightarrow> state" where
  "swap g = g\<lparr>temp0 := temp1 g, temp1 := temp0 g\<rparr>"

subsection \<open>\<^verbatim>\<open>time_step\<close>\<close>

text \<open>Lines 137 to 162. \<open>time_step_cell y x\<close> is the body of the inner loop; the first
  test of the outer loop divides by \<^verbatim>\<open>size\<close>.\<close>

definition time_step_cell :: "int_t \<Rightarrow> int_t \<Rightarrow> state \<Rightarrow> error + state" where
  "time_step_cell y x g =
     err_bind (T g x y) (\<lambda>c.
     err_bind (T g (x - 1) y) (\<lambda>t.
     err_bind (T g (x + 1) y) (\<lambda>b.
     err_bind (T g x (y - 1)) (\<lambda>l.
     err_bind (T g x (y + 1)) (\<lambda>r.
     err_bind (THERMAL_DIFFUSIVITY g x y) (\<lambda>K.
     T_next_set x y (c + K * dt g * ((l - 2 * c + r) + (b - 2 * c + t))) g))))))"

definition time_step :: "state \<Rightarrow> error + state" where
  "time_step g =
     (if size_g g = 0 then Inl DivByZero
      else for_loop 1 (c_div (M g) (size_g g))
             (\<lambda>y. for_loop 1 (c_div (N g) (size_g g)) (time_step_cell y)) g)"

subsection \<open>\<^verbatim>\<open>boundary_condition\<close>\<close>

text \<open>Lines 165 to 194. \<open>copy_cell xd yd xs ys\<close> is the assignment
  \<^verbatim>\<open>T(xd, yd) = T(xs, ys)\<close>.\<close>

definition copy_cell :: "int_t \<Rightarrow> int_t \<Rightarrow> int_t \<Rightarrow> int_t \<Rightarrow> state \<Rightarrow> error + state" where
  "copy_cell xd yd xs ys g = err_bind (T g xs ys) (\<lambda>v. T_set xd yd v g)"

text \<open>The bodies of the three loops: both halo rows at column \<open>x\<close>, the left halo cell
  of row \<open>y\<close>, the right halo cell of row \<open>y\<close>.\<close>

definition mirror_rows :: "int_t \<Rightarrow> state \<Rightarrow> error + state" where
  "mirror_rows x g =
     err_bind (copy_cell x 0 x 2 g) (\<lambda>g.
       if dims1 g = 0 then Inl DivByZero
       else copy_cell x (c_div (M g) (dims1 g) + 1) x (c_div (M g) (dims1 g) - 1) g)"

definition mirror_left :: "int_t \<Rightarrow> state \<Rightarrow> error + state" where
  "mirror_left y g = copy_cell 0 y 2 y g"

definition mirror_right :: "int_t \<Rightarrow> state \<Rightarrow> error + state" where
  "mirror_right y g =
     copy_cell (c_div (N g) (dims0 g) + 1) y (c_div (N g) (dims0 g) - 1) y g"

definition boundary_condition :: "state \<Rightarrow> error + state" where
  "boundary_condition g =
     (if dims0 g = 0 then Inl DivByZero
      else
        err_bind (for_loop 1 (c_div (N g) (dims0 g)) mirror_rows g) (\<lambda>g.
        err_bind
          (if rank g = 0
           then (if dims1 g = 0 then Inl DivByZero
                 else for_loop 1 (c_div (M g) (dims1 g)) mirror_left g)
           else Inr g) (\<lambda>g.
          if rank g = size_g g - 1
          then (if dims1 g = 0 then Inl DivByZero
                else for_loop 1 (c_div (M g) (dims1 g)) mirror_right g)
          else Inr g)))"

subsection \<open>\<^verbatim>\<open>domain_init\<close>\<close>

text \<open>Lines 197 to 231. \<open>local_col\<close>, \<open>local_row\<close>, \<open>offset_x\<close> and \<open>offset_y\<close> are
  its local variables of these names, \<open>init_cell\<close> is the body of the inner loop.\<close>

definition init_temperature :: "int_t \<Rightarrow> int_t \<Rightarrow> int_t \<Rightarrow> int_t \<Rightarrow> real_t" where
  "init_temperature offset_x offset_y x y =
     30 + 30 * sin (real_of_int ((x + offset_x) + (offset_y + y)) / 20)"

definition init_diffusivity :: "int_t \<Rightarrow> int_t \<Rightarrow> int_t \<Rightarrow> int_t \<Rightarrow> int_t \<Rightarrow> real_t" where
  "init_diffusivity n offset_x offset_y x y =
     5 / 100 + (30 + 30 * sin (real_of_int (n - x + offset_x + offset_y + y) / 20)) / 605"

definition init_cell :: "int_t \<Rightarrow> int_t \<Rightarrow> int_t \<Rightarrow> int_t \<Rightarrow> state \<Rightarrow> error + state" where
  "init_cell offset_x offset_y y x g =
     err_bind (T_set x y (init_temperature offset_x offset_y x y) g) (\<lambda>g.
     err_bind (T_next_set x y (init_temperature offset_x offset_y x y) g) (\<lambda>g.
     THERMAL_DIFFUSIVITY_set x y (init_diffusivity (N g) offset_x offset_y x y) g))"

definition local_col :: "state \<Rightarrow> int_t" where
  "local_col g = c_div (M g) (dims0 g)"

definition local_row :: "state \<Rightarrow> int_t" where
  "local_row g = c_div (N g) (dims1 g)"

definition offset_x :: "state \<Rightarrow> int_t" where
  "offset_x g = local_row g * coord0 g"

definition offset_y :: "state \<Rightarrow> int_t" where
  "offset_y g = local_col g * coord1 g"

text \<open>The first half of \<^verbatim>\<open>domain_init\<close>: the three blocks, \<^verbatim>\<open>dt\<close> and the two lines
  it prints. \<open>junk0\<close>, \<open>junk1\<close>, \<open>junk2\<close> are what the fresh blocks hold.\<close>

definition domain_alloc ::
  "(nat \<Rightarrow> real_t) \<Rightarrow> (nat \<Rightarrow> real_t) \<Rightarrow> (nat \<Rightarrow> real_t) \<Rightarrow> state \<Rightarrow> state" where
  "domain_alloc junk0 junk1 junk2 g =
     (let bytes = (local_col g + 2) * (local_row g + 2) * int sizeof_real_t
      in g\<lparr>temp0 := malloc bytes junk0,
            temp1 := malloc bytes junk1,
            thermal_diffusivity := malloc bytes junk2,
            dt := 1 / 10,
            stdout := stdout g @ [Local_size (rank g) (local_col g) (local_row g),
                                  Offset (rank g) (offset_x g) (offset_y g)]\<rparr>)"

definition domain_init ::
  "(nat \<Rightarrow> real_t) \<Rightarrow> (nat \<Rightarrow> real_t) \<Rightarrow> (nat \<Rightarrow> real_t) \<Rightarrow> state \<Rightarrow> error + state" where
  "domain_init junk0 junk1 junk2 g =
     (if dims0 g = 0 \<or> dims1 g = 0 then Inl DivByZero
      else for_loop 1 (local_col g)
             (\<lambda>y. for_loop 1 (local_row g) (init_cell (offset_x g) (offset_y g) y))
             (domain_alloc junk0 junk1 junk2 g))"

subsection \<open>\<^verbatim>\<open>domain_save\<close>\<close>

text \<open>Lines 234 to 255. \<open>dec\<close> writes a natural number in decimal digits, \<open>save_rows\<close>
  is the loop of \<^verbatim>\<open>fwrite\<close> calls, whose results are not checked in the source; a
  failing \<^verbatim>\<open>fopen\<close> ends the process with \<^verbatim>\<open>exit (1)\<close>, here \<open>OpenFailed\<close>.\<close>

fun dec :: "nat \<Rightarrow> string" where
  "dec n = (if n < 10 then [''0123456789'' ! n] else dec (n div 10) @ [''0123456789'' ! (n mod 10)])"

declare dec.simps [simp del]

text \<open>The conversion \<^verbatim>\<open>%.5ld\<close>: at least five digits, zeros in front.\<close>

definition fmt_5ld :: "int_t \<Rightarrow> string" where
  "fmt_5ld i =
     (let ds = dec (nat \<bar>i\<bar>); padded = replicate (5 - length ds) (CHR ''0'') @ ds
      in if i < 0 then CHR ''-'' # padded else padded)"

definition filename :: "int_t \<Rightarrow> string" where
  "filename index = ''data/'' @ fmt_5ld index @ ''.bin''"

function save_rows :: "int_t \<Rightarrow> state \<Rightarrow> real_t list \<Rightarrow> error + real_t list" where
  "save_rows iter g out =
     (if iter \<le> N g
      then (case load_block (temp0 g) ((M g + 2) * iter + 1) (N g) of
              Inl e \<Rightarrow> Inl e
            | Inr row \<Rightarrow> save_rows (iter + 1) g (out @ row))
      else Inr out)"
  by pat_completeness auto
termination
  by (relation "measure (\<lambda>(iter, g, out). nat (N g + 1 - iter))") auto

declare save_rows.simps [simp del]

definition domain_save :: "int_t \<Rightarrow> state \<Rightarrow> error + state" where
  "domain_save iteration g =
     (if snapshot_frequency g = 0 then Inl DivByZero
      else
        let index = c_div iteration (snapshot_frequency g);
            name = filename index
        in if \<not> can_open g name then Inl OpenFailed
           else err_bind (save_rows 1 g []) (\<lambda>out. Inr (g\<lparr>files := (files g)(name \<mapsto> out)\<rparr>)))"

subsection \<open>\<^verbatim>\<open>main\<close>\<close>

text \<open>
  Lines 95 to 123: the call of \<^verbatim>\<open>domain_init\<close> and the loop. The body of the loop is
  the progress line on rank 0, then \<^verbatim>\<open>swap\<close>. The calls of \<^verbatim>\<open>boundary_condition\<close>,
  \<^verbatim>\<open>time_step\<close> and \<^verbatim>\<open>domain_save\<close> are comments in the source, and
  \<^verbatim>\<open>border_exchange\<close> has a prototype and no body. What comes before (MPI start-up,
  the arguments parsed on rank 0, the broadcast) is in the starting state; what comes
  after (the elapsed time, \<^verbatim>\<open>free\<close>, \<^verbatim>\<open>MPI_Finalize\<close>) is left out.
\<close>

definition iteration_body :: "int_t \<Rightarrow> state \<Rightarrow> error + state" where
  "iteration_body iteration g =
     (if snapshot_frequency g = 0 then Inl DivByZero
      else
        let g1 = (if c_mod iteration (snapshot_frequency g) = 0 \<and> rank g = 0
                  then g\<lparr>stdout := stdout g @ [Progress iteration (max_iteration g)]\<rparr>
                  else g)
        in Inr (swap g1))"

definition main_loop :: "state \<Rightarrow> error + state" where
  "main_loop g = for_loop 0 (max_iteration g) iteration_body g"

definition main :: "(nat \<Rightarrow> real_t) \<Rightarrow> (nat \<Rightarrow> real_t) \<Rightarrow> (nat \<Rightarrow> real_t) \<Rightarrow> state \<Rightarrow> error + state" where
  "main junk0 junk1 junk2 g = err_bind (domain_init junk0 junk1 junk2 g) main_loop"

subsection \<open>Starting states\<close>

text \<open>
  The globals of one process when \<^verbatim>\<open>main\<close> reaches \<^verbatim>\<open>domain_init\<close>: what MPI and
  the broadcast have set, the three pointers still \<^verbatim>\<open>NULL\<close>, \<^verbatim>\<open>dt\<close> still zero,
  nothing printed, no file written, and a \<^verbatim>\<open>data/\<close> directory that accepts every file.
  The arguments are \<^verbatim>\<open>rank\<close>, \<^verbatim>\<open>size\<close>, \<^verbatim>\<open>dims[0]\<close>, \<^verbatim>\<open>dims[1]\<close>, \<^verbatim>\<open>coord[0]\<close>,
  \<^verbatim>\<open>coord[1]\<close>, \<^verbatim>\<open>M\<close>, \<^verbatim>\<open>N\<close>, \<^verbatim>\<open>max_iteration\<close>, \<^verbatim>\<open>snapshot_frequency\<close>.
\<close>

definition start ::
  "int \<Rightarrow> int \<Rightarrow> int \<Rightarrow> int \<Rightarrow> int \<Rightarrow> int \<Rightarrow> int_t \<Rightarrow> int_t \<Rightarrow> int_t \<Rightarrow> int_t \<Rightarrow> state" where
  "start rk sz d0 d1 c0 c1 m n mi sf =
     \<lparr>rank = rk, size_g = sz, dims0 = d0, dims1 = d1, coord0 = c0, coord1 = c1,
      M = m, N = n, max_iteration = mi, snapshot_frequency = sf,
      temp0 = [], temp1 = [], thermal_diffusivity = [], dt = 0, stdout = [],
      can_open = (\<lambda>_. True), files = Map.empty\<rparr>"

text \<open>The file of a given name in a state, if there is one.\<close>

definition saved :: "string \<Rightarrow> state \<Rightarrow> error + real_t list option" where
  "saved name g = Inr (files g name)"

text \<open>Fresh memory that happens to hold zeros, and a buffer that holds its own indices.\<close>

definition zero_mem :: "nat \<Rightarrow> real_t" where
  "zero_mem k = 0"

definition ramp :: "nat \<Rightarrow> real_t list" where
  "ramp n = map real [0 ..< n]"

text \<open>
  The update of section 4.4 of the specification, in its words: the value of the cell
  plus diffusivity times \<^verbatim>\<open>dt\<close> times (the sum of the four orthogonal neighbours minus
  four times the cell).
\<close>

definition spec_stencil :: "state \<Rightarrow> int_t \<Rightarrow> int_t \<Rightarrow> error + real_t" where
  "spec_stencil g x y =
     err_bind (T g x y) (\<lambda>c.
     err_bind (T g (x - 1) y) (\<lambda>t.
     err_bind (T g (x + 1) y) (\<lambda>b.
     err_bind (T g x (y - 1)) (\<lambda>l.
     err_bind (T g x (y + 1)) (\<lambda>r.
     err_bind (THERMAL_DIFFUSIVITY g x y) (\<lambda>K.
     Inr (c + K * dt g * (t + b + l + r - 4 * c))))))))"

text \<open>
  The checkpoint of the scenario of section 8 of the specification, in its words: the
  initial condition at each zero-indexed \<open>(x, y)\<close> of \<open>[0,8) \<times> [0,8)\<close>, row-major.
\<close>

definition spec_initial_condition_8x8 :: "real_t list" where
  "spec_initial_condition_8x8 =
     concat (map (\<lambda>y. map (\<lambda>x. 30 + 30 * sin (real_of_int (x + y) / 20)) [0..7]) [0..7])"

subsection \<open>Predicates for the proofs\<close>

text \<open>
  \<open>frame g\<close> is the state without its three buffers: two states with the same frame
  agree on every scalar, on what was printed and on the files. \<open>writes A w b b'\<close>: the
  buffer \<open>b'\<close> is \<open>b\<close> with the cells \<open>A\<close> overwritten, cell \<open>k\<close> by \<open>w k\<close>.
  \<open>filled\<close> says this of the three buffers of two states. \<open>interior g\<close> is the set of
  cells that the macros address with \<open>1 \<le> x \<le> local_row\<close> and \<open>1 \<le> y \<le> local_col\<close>,
  and \<open>cell_temperature\<close>, \<open>cell_diffusivity\<close> are the initial values as functions of the
  cell number.
\<close>

definition frame :: "state \<Rightarrow> state" where
  "frame g = g\<lparr>temp0 := [], temp1 := [], thermal_diffusivity := []\<rparr>"

definition writes :: "nat set \<Rightarrow> (nat \<Rightarrow> real_t) \<Rightarrow> real_t list \<Rightarrow> real_t list \<Rightarrow> bool" where
  "writes A w b b' \<longleftrightarrow>
     length b' = length b \<and> A \<subseteq> {..<length b} \<and>
     (\<forall>k<length b. b' ! k = (if k \<in> A then w k else b ! k))"

definition filled ::
  "nat set \<Rightarrow> (nat \<Rightarrow> real_t) \<Rightarrow> (nat \<Rightarrow> real_t) \<Rightarrow> state \<Rightarrow> state \<Rightarrow> bool" where
  "filled A wT wD s t \<longleftrightarrow>
     frame t = frame s \<and>
     writes A wT (temp0 s) (temp0 t) \<and>
     writes A wT (temp1 s) (temp1 t) \<and>
     writes A wD (thermal_diffusivity s) (thermal_diffusivity t)"

definition cell_temperature :: "state \<Rightarrow> nat \<Rightarrow> real_t" where
  "cell_temperature g k =
     init_temperature (offset_x g) (offset_y g) (int k mod (N g + 2)) (int k div (N g + 2))"

definition cell_diffusivity :: "state \<Rightarrow> nat \<Rightarrow> real_t" where
  "cell_diffusivity g k =
     init_diffusivity (N g) (offset_x g) (offset_y g) (int k mod (N g + 2)) (int k div (N g + 2))"

definition interior :: "state \<Rightarrow> nat set" where
  "interior g = (\<lambda>(x, y). nat (idx g x y)) ` ({1 .. local_row g} \<times> {1 .. local_col g})"

text \<open>
  For \<^verbatim>\<open>time_step\<close>: \<open>frame_next g\<close> is the state without its next buffer;
  \<open>stencil_at g k\<close> is the update of the specification at the cell with number \<open>k\<close>;
  \<open>stepped A s t\<close> says that \<open>t\<close> is \<open>s\<close> with the cells \<open>A\<close> of the next buffer
  overwritten by the update computed in \<open>s\<close>, which returned there; \<open>stepped_cells g\<close>
  are the cells that the loops of \<^verbatim>\<open>time_step\<close> visit.
\<close>

definition frame_next :: "state \<Rightarrow> state" where
  "frame_next g = g\<lparr>temp1 := []\<rparr>"

definition stencil_at :: "state \<Rightarrow> nat \<Rightarrow> error + real_t" where
  "stencil_at g k = spec_stencil g (int k mod (N g + 2)) (int k div (N g + 2))"

definition stepped :: "nat set \<Rightarrow> state \<Rightarrow> state \<Rightarrow> bool" where
  "stepped A s t \<longleftrightarrow>
     frame_next t = frame_next s \<and> length (temp1 t) = length (temp1 s) \<and>
     A \<subseteq> {..<length (temp1 s)} \<and>
     (\<forall>k<length (temp1 s).
        if k \<in> A then stencil_at s k = Inr (temp1 t ! k) else temp1 t ! k = temp1 s ! k)"

definition stepped_cells :: "state \<Rightarrow> nat set" where
  "stepped_cells g =
     (\<lambda>(x, y). nat (idx g x y)) ` ({1 .. c_div (N g) (size_g g)} \<times> {1 .. c_div (M g) (size_g g)})"

text \<open>
  For \<^verbatim>\<open>boundary_condition\<close>: \<open>cell g x y\<close> is the content of the cell that \<^verbatim>\<open>T(x, y)\<close>
  names; \<open>frame_current g\<close> is the state without its current buffer, and \<open>shape g t\<close>
  says that \<open>t\<close> differs from \<open>g\<close> at most in the contents of that buffer. \<open>serial g\<close>
  is the run on one process with at least two rows and two columns and a current buffer
  of \<open>(M + 2) * (N + 2)\<close> cells, as \<^verbatim>\<open>domain_init\<close> allocates it there.
\<close>

definition cell :: "state \<Rightarrow> int_t \<Rightarrow> int_t \<Rightarrow> real_t" where
  "cell g x y = temp0 g ! nat (idx g x y)"

definition frame_current :: "state \<Rightarrow> state" where
  "frame_current g = g\<lparr>temp0 := []\<rparr>"

definition shape :: "state \<Rightarrow> state \<Rightarrow> bool" where
  "shape g t \<longleftrightarrow> frame_current t = frame_current g \<and> length (temp0 t) = length (temp0 g)"

definition serial :: "state \<Rightarrow> bool" where
  "serial g \<longleftrightarrow> rank g = 0 \<and> size_g g = 1 \<and> dims0 g = 1 \<and> dims1 g = 1 \<and>
     2 \<le> M g \<and> 2 \<le> N g \<and> int (length (temp0 g)) = (M g + 2) * (N g + 2)"

section \<open>Evaluation\<close>

lemmas model_defs =
  start_def zero_mem_def ramp_def c_div_def c_mod_def sizeof_real_t_def err_bind_def malloc_def
  load_def store_def load_block_def idx_def T_def T_next_def THERMAL_DIFFUSIVITY_def T_set_def
  T_next_set_def THERMAL_DIFFUSIVITY_set_def swap_def time_step_cell_def time_step_def
  copy_cell_def mirror_rows_def mirror_left_def mirror_right_def boundary_condition_def init_temperature_def init_diffusivity_def init_cell_def
  local_col_def local_row_def offset_x_def offset_y_def domain_alloc_def domain_init_def iteration_body_def main_loop_def main_def
  domain_save_def spec_stencil_def

lemma replicate_numeral: "replicate (numeral k) x = x # replicate (pred_numeral k) x"
  by (simp add: numeral_eq_Suc)

lemma filename_0: "filename 0 = ''data/00000.bin''"
  by (simp add: filename_def fmt_5ld_def dec.simps replicate_numeral)

lemma filename_examples:
  "filename 7 = ''data/00007.bin''"
  "filename 123456 = ''data/123456.bin''"
  "filename (- 12) = ''data/-00012.bin''"
  by (simp_all add: filename_def fmt_5ld_def dec.simps replicate_numeral)

lemma sin_pos_small: "0 < x \<Longrightarrow> x \<le> 1 \<Longrightarrow> 0 < sin (x::real)"
  using pi_ge_two by (intro sin_gt_zero) auto

section \<open>Loops, frames and index arithmetic\<close>

subsection \<open>Division\<close>

lemma c_div_pos: "0 \<le> a \<Longrightarrow> 0 < b \<Longrightarrow> c_div a b = a div b"
  by (cases "a = 0") (simp_all add: c_div_def)

lemma c_div_le: "0 < b \<Longrightarrow> 1 \<le> x \<Longrightarrow> x \<le> c_div a b \<Longrightarrow> x \<le> a"
proof -
  assume b: "0 < b" and x: "1 \<le> x" "x \<le> c_div a b"
  show "x \<le> a"
  proof (cases "0 \<le> a")
    case True
    then have "c_div a b = a div b" using b by (rule c_div_pos)
    moreover have "a div b \<le> a div 1" using True b by (intro zdiv_mono2) auto
    ultimately show ?thesis using x by simp
  next
    case False
    then have "c_div a b = - (\<bar>a\<bar> div \<bar>b\<bar>)" using b by (simp add: c_div_def)
    moreover have "0 \<le> \<bar>a\<bar> div \<bar>b\<bar>" using b by (simp add: pos_imp_zdiv_nonneg_iff)
    ultimately show ?thesis using x by linarith
  qed
qed

lemma c_div_1: "c_div a 1 = a"
  by (simp add: c_div_def mult.commute [of "sgn a"] abs_mult_sgn)

subsection \<open>Loops\<close>

lemma for_loop_rule:
  assumes "for_loop i hi body s = Inr s'"
    and "P i s"
    and "\<And>j t t'. i \<le> j \<Longrightarrow> j \<le> hi \<Longrightarrow> P j t \<Longrightarrow> body j t = Inr t' \<Longrightarrow> P (j + 1) t'"
  shows "P (max i (hi + 1)) s'"
  using assms
proof (induction i hi body s rule: for_loop.induct)
  case (1 i hi body s)
  show ?case
  proof (cases "i \<le> hi")
    case True
    with "1.prems"(1) obtain t where bt: "body i s = Inr t"
      and rest: "for_loop (i + 1) hi body t = Inr s'"
      by (simp add: for_loop.simps [of i] split: sum.splits)
    have "P (i + 1) t"
      using "1.prems"(3) [OF _ True "1.prems"(2) bt] by simp
    with rest have "P (max (i + 1) (hi + 1)) s'"
      using "1.prems"(3) by (intro "1.IH" [OF True bt]) auto
    with True show ?thesis by (simp add: max_def)
  next
    case False
    then have "max i (hi + 1) = i" by simp
    with False "1.prems"(1,2) show ?thesis
      by (simp add: for_loop.simps [of i])
  qed
qed

lemma for_loop_total:
  assumes "P i s"
    and "\<And>j t. i \<le> j \<Longrightarrow> j \<le> hi \<Longrightarrow> P j t \<Longrightarrow> \<exists>t'. body j t = Inr t' \<and> P (j + 1) t'"
  shows "\<exists>s'. for_loop i hi body s = Inr s' \<and> P (max i (hi + 1)) s'"
  using assms
proof (induction i hi body s rule: for_loop.induct)
  case (1 i hi body s)
  show ?case
  proof (cases "i \<le> hi")
    case True
    from "1.prems"(2) [OF _ True "1.prems"(1)] obtain t
      where bt: "body i s = Inr t" and pt: "P (i + 1) t" by auto
    have "\<exists>s'. for_loop (i + 1) hi body t = Inr s' \<and> P (max (i + 1) (hi + 1)) s'"
      using pt "1.prems"(2) by (intro "1.IH" [OF True bt]) auto
    with True bt show ?thesis
      by (simp add: for_loop.simps [of i] max_def)
  next
    case False
    then have "max i (hi + 1) = i" by simp
    with False "1.prems"(1) show ?thesis
      by (simp add: for_loop.simps [of i])
  qed
qed

subsection \<open>What a loop leaves alone\<close>

lemma frame_eqD:
  assumes "frame t = frame s"
  shows "N t = N s" "M t = M s" "dims0 t = dims0 s" "dims1 t = dims1 s" "coord0 t = coord0 s" "coord1 t = coord1 s" "snapshot_frequency t = snapshot_frequency s" "can_open t = can_open s" "files t = files s" "dt t = dt s" "stdout t = stdout s" "rank t = rank s" "size_g t = size_g s" "max_iteration t = max_iteration s"
proof -
  show "N t = N s"
    using arg_cong [OF assms, of N] by (simp add: frame_def)
  show "M t = M s"
    using arg_cong [OF assms, of M] by (simp add: frame_def)
  show "dims0 t = dims0 s"
    using arg_cong [OF assms, of dims0] by (simp add: frame_def)
  show "dims1 t = dims1 s"
    using arg_cong [OF assms, of dims1] by (simp add: frame_def)
  show "coord0 t = coord0 s"
    using arg_cong [OF assms, of coord0] by (simp add: frame_def)
  show "coord1 t = coord1 s"
    using arg_cong [OF assms, of coord1] by (simp add: frame_def)
  show "snapshot_frequency t = snapshot_frequency s"
    using arg_cong [OF assms, of snapshot_frequency] by (simp add: frame_def)
  show "can_open t = can_open s"
    using arg_cong [OF assms, of can_open] by (simp add: frame_def)
  show "files t = files s"
    using arg_cong [OF assms, of files] by (simp add: frame_def)
  show "dt t = dt s"
    using arg_cong [OF assms, of dt] by (simp add: frame_def)
  show "stdout t = stdout s"
    using arg_cong [OF assms, of stdout] by (simp add: frame_def)
  show "rank t = rank s"
    using arg_cong [OF assms, of rank] by (simp add: frame_def)
  show "size_g t = size_g s"
    using arg_cong [OF assms, of size_g] by (simp add: frame_def)
  show "max_iteration t = max_iteration s"
    using arg_cong [OF assms, of max_iteration] by (simp add: frame_def)
qed

lemma frame_idx: "frame t = frame s \<Longrightarrow> idx t x y = idx s x y"
  using frame_eqD(1) [of t s] by (simp add: idx_def)

lemma frame_cells:
  assumes "frame t = frame s"
  shows "cell_temperature t = cell_temperature s" "cell_diffusivity t = cell_diffusivity s"
    "interior t = interior s"
proof -
  note e = frame_eqD(1-6) [OF assms]
  have l: "local_row t = local_row s" "local_col t = local_col s"
    by (simp_all add: local_row_def local_col_def e)
  have o: "offset_x t = offset_x s" "offset_y t = offset_y s"
    by (simp_all add: offset_x_def offset_y_def l e)
  show "cell_temperature t = cell_temperature s"
    by (rule ext) (simp add: cell_temperature_def o e)
  show "cell_diffusivity t = cell_diffusivity s"
    by (rule ext) (simp add: cell_diffusivity_def o e)
  show "interior t = interior s"
    by (simp add: interior_def l frame_idx [OF assms])
qed

subsection \<open>Writes\<close>

lemma writes_refl: "writes {} w b b"
  by (simp add: writes_def)

lemma writes_trans:
  "writes A w b b' \<Longrightarrow> writes B w b' b'' \<Longrightarrow> writes (A \<union> B) w b b''"
  by (auto simp: writes_def)

lemma writes_store:
  "store b i v = Inr b' \<Longrightarrow> w (nat i) = v \<Longrightarrow> writes {nat i} w b b'"
  by (auto simp: writes_def store_def nth_list_update split: if_splits)

lemma filled_refl: "filled {} wT wD s s"
  by (simp add: filled_def writes_refl)

lemma filled_trans:
  "filled A wT wD s t \<Longrightarrow> filled B wT wD t u \<Longrightarrow> filled (A \<union> B) wT wD s u"
  by (auto simp: filled_def intro: writes_trans)

lemma for_loop_filled:
  assumes loop: "for_loop lo hi body s = Inr s'"
    and step: "\<And>j t t'. lo \<le> j \<Longrightarrow> j \<le> hi \<Longrightarrow> frame t = frame s \<Longrightarrow> body j t = Inr t' \<Longrightarrow>
                 filled (A j) wT wD t t'"
  shows "filled (\<Union>j\<in>{lo..hi}. A j) wT wD s s'"
proof -
  let ?P = "\<lambda>j t. filled (\<Union>k\<in>{lo..<j}. A k) wT wD s t"
  have "?P (max lo (hi + 1)) s'"
  proof (rule for_loop_rule [OF loop, where P = ?P])
    show "?P lo s" by (simp add: filled_refl)
  next
    fix j t t'
    assume j: "lo \<le> j" "j \<le> hi" and p: "?P j t" and b: "body j t = Inr t'"
    from p have "frame t = frame s" by (simp add: filled_def)
    from step [OF j this b] p have "filled ((\<Union>k\<in>{lo..<j}. A k) \<union> A j) wT wD s t'"
      by (rule filled_trans [rotated])
    moreover have "{lo..<j + 1} = insert j {lo..<j}" using j by auto
    ultimately show "?P (j + 1) t'" by (simp add: Un_commute)
  qed
  moreover have "{lo..<max lo (hi + 1)} = {lo..hi}" by auto
  ultimately show ?thesis by simp
qed

subsection \<open>Index arithmetic\<close>

lemma idx_decode:
  assumes "0 \<le> x" "x < N g + 2" "0 \<le> y"
  shows "0 \<le> idx g x y" "int (nat (idx g x y)) mod (N g + 2) = x"
    "int (nat (idx g x y)) div (N g + 2) = y"
proof -
  have pos: "0 < N g + 2" using assms by linarith
  show nn: "0 \<le> idx g x y" using assms pos by (simp add: idx_def)
  show "int (nat (idx g x y)) mod (N g + 2) = x" using nn assms by (simp add: idx_def)
  show "int (nat (idx g x y)) div (N g + 2) = y" using nn assms pos by (simp add: idx_def)
qed

lemma idx_inj:
  assumes "0 \<le> x" "x < N g + 2" "0 \<le> y" "0 \<le> x'" "x' < N g + 2" "0 \<le> y'"
    and "nat (idx g x y) = nat (idx g x' y')"
  shows "x = x' \<and> y = y'"
  using idx_decode(2,3) [OF assms(1-3)] idx_decode(2,3) [OF assms(4-6)] assms(7) by simp

lemma cell_values:
  assumes "0 \<le> x" "x < N g + 2" "0 \<le> y"
  shows "cell_temperature g (nat (idx g x y)) = init_temperature (offset_x g) (offset_y g) x y"
    and "cell_diffusivity g (nat (idx g x y)) = init_diffusivity (N g) (offset_x g) (offset_y g) x y"
  using idx_decode(2,3) [OF assms] by (simp_all add: cell_temperature_def cell_diffusivity_def)

section \<open>\<^verbatim>\<open>domain_init\<close>\<close>

subsection \<open>What \<^verbatim>\<open>domain_init\<close> writes where it returns\<close>

lemma init_cell_filled:
  assumes c: "init_cell (offset_x g) (offset_y g) y x t = Inr t'"
    and f: "frame t = frame g"
    and r: "0 \<le> x" "x < N g + 2" "0 \<le> y"
  shows "filled {nat (idx g x y)} (cell_temperature g) (cell_diffusivity g) t t'"
proof -
  have i: "idx t x y = idx g x y" by (rule frame_idx [OF f])
  have n: "N t = N g" by (rule frame_eqD(1) [OF f])
  from c obtain b0 b1 b2 where
    s0: "store (temp0 t) (idx g x y) (init_temperature (offset_x g) (offset_y g) x y) = Inr b0" and
    s1: "store (temp1 t) (idx g x y) (init_temperature (offset_x g) (offset_y g) x y) = Inr b1" and
    s2: "store (thermal_diffusivity t) (idx g x y)
           (init_diffusivity (N g) (offset_x g) (offset_y g) x y) = Inr b2" and
    t': "t' = t\<lparr>temp0 := b0, temp1 := b1, thermal_diffusivity := b2\<rparr>"
    by (auto simp: init_cell_def T_set_def T_next_set_def THERMAL_DIFFUSIVITY_set_def err_bind_def
        idx_def n split: sum.splits)
  note v = cell_values [OF r]
  show ?thesis
    unfolding filled_def
    using writes_store [where w = "cell_temperature g", OF s0 v(1)]
      writes_store [where w = "cell_temperature g", OF s1 v(1)]
      writes_store [where w = "cell_diffusivity g", OF s2 v(2)]
    by (simp add: t' frame_def)
qed

lemma init_row_filled:
  assumes loop: "for_loop 1 hi (init_cell (offset_x g) (offset_y g) y) t = Inr t'"
    and f: "frame t = frame g"
    and r: "\<And>x. 1 \<le> x \<Longrightarrow> x \<le> hi \<Longrightarrow> x < N g + 2" "0 \<le> y"
  shows "filled (\<Union>x\<in>{1..hi}. {nat (idx g x y)}) (cell_temperature g) (cell_diffusivity g) t t'"
proof (rule for_loop_filled [OF loop])
  fix j u u'
  assume j: "1 \<le> j" "j \<le> hi" and u: "frame u = frame t"
    and b: "init_cell (offset_x g) (offset_y g) y j u = Inr u'"
  from u f have "frame u = frame g" by simp
  from init_cell_filled [OF b this _ r(1) [OF j] r(2)] j
  show "filled {nat (idx g j y)} (cell_temperature g) (cell_diffusivity g) u u'" by simp
qed

lemma frame_domain_alloc: "frame (domain_alloc junk0 junk1 junk2 g) = frame (g\<lparr>dt := 1 / 10,
    stdout := stdout g @ [Local_size (rank g) (local_col g) (local_row g),
                          Offset (rank g) (offset_x g) (offset_y g)]\<rparr>)"
  by (simp add: domain_alloc_def frame_def Let_def)

lemma alloc_cells:
  "cell_temperature (domain_alloc junk0 junk1 junk2 g) = cell_temperature g"
  "cell_diffusivity (domain_alloc junk0 junk1 junk2 g) = cell_diffusivity g"
  "interior (domain_alloc junk0 junk1 junk2 g) = interior g"
  "idx (domain_alloc junk0 junk1 junk2 g) x y = idx g x y"
  "N (domain_alloc junk0 junk1 junk2 g) = N g"
  by (simp_all add: domain_alloc_def cell_temperature_def cell_diffusivity_def interior_def
      idx_def offset_x_def offset_y_def local_row_def local_col_def Let_def fun_eq_iff)

lemma interior_Union:
  "interior g = (\<Union>y\<in>{1 .. local_col g}. \<Union>x\<in>{1 .. local_row g}. {nat (idx g x y)})"
  by (auto simp: interior_def)

lemma domain_init_filled:
  assumes d: "domain_init junk0 junk1 junk2 g = Inr s" and p: "0 < dims1 g"
  shows "filled (interior g) (cell_temperature g) (cell_diffusivity g)
           (domain_alloc junk0 junk1 junk2 g) s"
proof -
  let ?a = "domain_alloc junk0 junk1 junk2 g"
  from d have loop: "for_loop 1 (local_col g)
      (\<lambda>y. for_loop 1 (local_row g) (init_cell (offset_x ?a) (offset_y ?a) y)) ?a = Inr s"
    by (simp add: domain_init_def offset_x_def offset_y_def local_row_def local_col_def
        domain_alloc_def Let_def split: if_splits)
  have "filled (\<Union>y\<in>{1 .. local_col g}. \<Union>x\<in>{1 .. local_row g}. {nat (idx ?a x y)})
          (cell_temperature ?a) (cell_diffusivity ?a) ?a s"
  proof (rule for_loop_filled [OF loop])
    fix j t t'
    assume j: "1 \<le> j" "j \<le> local_col g" and f: "frame t = frame ?a"
      and b: "for_loop 1 (local_row g) (init_cell (offset_x ?a) (offset_y ?a) j) t = Inr t'"
    have "x < N ?a + 2" if "1 \<le> x" "x \<le> local_row g" for x
      using c_div_le [OF p that(1), of "N g"] that(2) by (simp add: local_row_def alloc_cells)
    from init_row_filled [OF b f this] j
    show "filled (\<Union>x\<in>{1 .. local_row g}. {nat (idx ?a x j)})
            (cell_temperature ?a) (cell_diffusivity ?a) t t'" by simp
  qed
  then show ?thesis
    by (simp add: alloc_cells interior_Union)
qed

lemma malloc_nth: "k < length (malloc bytes junk) \<Longrightarrow> malloc bytes junk ! k = junk k"
  by (simp add: malloc_def)

lemma load_InrD: "load b i = Inr v \<Longrightarrow> b ! nat i = v"
  by (simp add: load_def split: if_splits)

lemma interior_bound:
  assumes p: "0 < dims1 g" and x: "1 \<le> x" "x \<le> local_row g"
  shows "x \<le> N g"
  using c_div_le [OF p x(1), of "N g"] x(2) by (simp add: local_row_def)

lemma domain_init_interior:
  assumes d: "domain_init junk0 junk1 junk2 g = Inr s" and p: "0 < dims1 g"
    and x: "1 \<le> x" "x \<le> local_row g" and y: "1 \<le> y" "y \<le> local_col g"
  shows "T s x y = Inr (init_temperature (offset_x g) (offset_y g) x y)"
    and "T_next s x y = Inr (init_temperature (offset_x g) (offset_y g) x y)"
    and "THERMAL_DIFFUSIVITY s x y = Inr (init_diffusivity (N g) (offset_x g) (offset_y g) x y)"
proof -
  let ?a = "domain_alloc junk0 junk1 junk2 g"
  let ?k = "nat (idx g x y)"
  note F = domain_init_filled [OF d p, unfolded filled_def]
  have r: "0 \<le> x" "x < N g + 2" "0 \<le> y"
    using x y interior_bound [OF p x] by simp_all
  have i: "idx s x y = idx g x y"
    using frame_idx [of s ?a x y] F by (simp add: alloc_cells)
  have k: "?k \<in> interior g"
    using x y by (auto simp: interior_def)
  have nn: "0 \<le> idx g x y" by (rule idx_decode(1) [OF r])
  have w0: "writes (interior g) (cell_temperature g) (temp0 ?a) (temp0 s)"
    and w1: "writes (interior g) (cell_temperature g) (temp1 ?a) (temp1 s)"
    and w2: "writes (interior g) (cell_diffusivity g) (thermal_diffusivity ?a) (thermal_diffusivity s)"
    using F by simp_all
  show "T s x y = Inr (init_temperature (offset_x g) (offset_y g) x y)"
    using w0 k nn cell_values(1) [OF r] by (auto simp: T_def load_def i writes_def)
  show "T_next s x y = Inr (init_temperature (offset_x g) (offset_y g) x y)"
    using w1 k nn cell_values(1) [OF r] by (auto simp: T_next_def load_def i writes_def)
  show "THERMAL_DIFFUSIVITY s x y = Inr (init_diffusivity (N g) (offset_x g) (offset_y g) x y)"
    using w2 k nn cell_values(2) [OF r] by (auto simp: THERMAL_DIFFUSIVITY_def load_def i writes_def)
qed

lemma domain_init_untouched:
  assumes d: "domain_init junk0 junk1 junk2 g = Inr s" and p: "0 < dims1 g"
    and k: "k \<notin> interior g"
  shows "k < length (temp0 s) \<Longrightarrow> temp0 s ! k = junk0 k"
    and "k < length (temp1 s) \<Longrightarrow> temp1 s ! k = junk1 k"
    and "k < length (thermal_diffusivity s) \<Longrightarrow> thermal_diffusivity s ! k = junk2 k"
proof -
  let ?a = "domain_alloc junk0 junk1 junk2 g"
  note F = domain_init_filled [OF d p, unfolded filled_def]
  have w0: "writes (interior g) (cell_temperature g) (temp0 ?a) (temp0 s)"
    and w1: "writes (interior g) (cell_temperature g) (temp1 ?a) (temp1 s)"
    and w2: "writes (interior g) (cell_diffusivity g) (thermal_diffusivity ?a) (thermal_diffusivity s)"
    using F by simp_all
  show "k < length (temp0 s) \<Longrightarrow> temp0 s ! k = junk0 k"
    using w0 k malloc_nth [of k _ junk0] by (simp add: writes_def domain_alloc_def Let_def)
  show "k < length (temp1 s) \<Longrightarrow> temp1 s ! k = junk1 k"
    using w1 k malloc_nth [of k _ junk1] by (simp add: writes_def domain_alloc_def Let_def)
  show "k < length (thermal_diffusivity s) \<Longrightarrow> thermal_diffusivity s ! k = junk2 k"
    using w2 k malloc_nth [of k _ junk2] by (simp add: writes_def domain_alloc_def Let_def)
qed

lemma domain_init_lengths:
  assumes d: "domain_init junk0 junk1 junk2 g = Inr s" and p: "0 < dims1 g"
  shows "length (temp0 s) = nat ((local_col g + 2) * (local_row g + 2) * int sizeof_real_t) div sizeof_real_t"
    and "length (temp1 s) = length (temp0 s)"
    and "length (thermal_diffusivity s) = length (temp0 s)"
  using domain_init_filled [OF d p]
  by (simp_all add: filled_def writes_def domain_alloc_def Let_def malloc_def)

lemma domain_init_scalars:
  assumes d: "domain_init junk0 junk1 junk2 g = Inr s" and p: "0 < dims1 g"
  shows "M s = M g" "N s = N g" "snapshot_frequency s = snapshot_frequency g"
    "can_open s = can_open g" "files s = files g"
proof -
  have f: "frame s = frame (domain_alloc junk0 junk1 junk2 g)"
    using domain_init_filled [OF d p] by (simp add: filled_def)
  show "M s = M g" "N s = N g" "snapshot_frequency s = snapshot_frequency g"
    "can_open s = can_open g" "files s = files g"
    using frame_eqD [OF f] by (simp_all add: domain_alloc_def Let_def)
qed

lemma halo_not_interior:
  assumes p: "0 < dims1 g"
    and r: "0 \<le> x" "x \<le> local_row g + 1" "0 \<le> y" "y \<le> local_col g + 1"
    and h: "x = 0 \<or> x = local_row g + 1 \<or> y = 0 \<or> y = local_col g + 1"
  shows "nat (idx g x y) \<notin> interior g"
proof
  assume "nat (idx g x y) \<in> interior g"
  then obtain x' y' where i: "1 \<le> x'" "x' \<le> local_row g" "1 \<le> y'" "y' \<le> local_col g"
    and e: "nat (idx g x y) = nat (idx g x' y')"
    by (auto simp: interior_def)
  have b': "x' < N g + 2" using interior_bound [OF p i(1,2)] by simp
  have "local_row g \<le> N g"
    using interior_bound [OF p, of "local_row g"] i by simp
  then have b: "x < N g + 2"
    using r(2) by simp
  have "x = x' \<and> y = y'"
    using idx_inj [OF r(1) b r(3) _ b' _ e] i by simp
  with h i show False by auto
qed

text \<open>
  Where \<^verbatim>\<open>domain_init\<close> returns (no store left the allocated blocks), with \<^verbatim>\<open>dims[1]\<close>
  positive: for every interior cell \<open>(x, y)\<close>, \<^verbatim>\<open>T(x, y)\<close> and \<^verbatim>\<open>T_next(x, y)\<close> both
  hold \<open>30 + 30 * sin ((x + offset_x + offset_y + y) / 20)\<close>; and every cell that the
  macros address as a halo cell (\<open>x\<close> is 0 or \<open>local_row + 1\<close>, or \<open>y\<close> is 0 or
  \<open>local_col + 1\<close>) and that lies in the block still holds, in each of the three
  buffers, what \<^verbatim>\<open>malloc\<close> returned there.
\<close>

lemma domain_init_where_it_returns:
  assumes "0 < dims1 g" and "domain_init junk0 junk1 junk2 g = Inr s"
  shows "(\<forall>x y. 1 \<le> x \<and> x \<le> local_row g \<and> 1 \<le> y \<and> y \<le> local_col g \<longrightarrow>
            T s x y = Inr (init_temperature (offset_x g) (offset_y g) x y) \<and>
            T_next s x y = Inr (init_temperature (offset_x g) (offset_y g) x y)) \<and>
         (\<forall>x y. 0 \<le> x \<and> x \<le> local_row g + 1 \<and> 0 \<le> y \<and> y \<le> local_col g + 1 \<and>
                (x = 0 \<or> x = local_row g + 1 \<or> y = 0 \<or> y = local_col g + 1) \<and>
                0 \<le> idx g x y \<and> idx g x y < int (length (temp0 s)) \<longrightarrow>
            temp0 s ! nat (idx g x y) = junk0 (nat (idx g x y)) \<and>
            temp1 s ! nat (idx g x y) = junk1 (nat (idx g x y)) \<and>
            thermal_diffusivity s ! nat (idx g x y) = junk2 (nat (idx g x y)))"
proof (intro conjI allI impI)
  fix x y
  assume "1 \<le> x \<and> x \<le> local_row g \<and> 1 \<le> y \<and> y \<le> local_col g"
  then show "T s x y = Inr (init_temperature (offset_x g) (offset_y g) x y)"
    and "T_next s x y = Inr (init_temperature (offset_x g) (offset_y g) x y)"
    using domain_init_interior(1,2) [OF assms(2,1)] by simp_all
next
  fix x y
  assume h: "0 \<le> x \<and> x \<le> local_row g + 1 \<and> 0 \<le> y \<and> y \<le> local_col g + 1 \<and>
             (x = 0 \<or> x = local_row g + 1 \<or> y = 0 \<or> y = local_col g + 1) \<and>
             0 \<le> idx g x y \<and> idx g x y < int (length (temp0 s))"
  then have k: "nat (idx g x y) \<notin> interior g"
    by (intro halo_not_interior [OF assms(1)]) simp_all
  from h have "0 \<le> idx g x y" "idx g x y < int (length (temp0 s))" by simp_all
  then have l: "nat (idx g x y) < length (temp0 s)" by linarith
  note u = domain_init_untouched [OF assms(2,1) k] domain_init_lengths(2,3) [OF assms(2,1)]
  show "temp0 s ! nat (idx g x y) = junk0 (nat (idx g x y))" using u l by simp
  show "temp1 s ! nat (idx g x y) = junk1 (nat (idx g x y))" using u l by simp
  show "thermal_diffusivity s ! nat (idx g x y) = junk2 (nat (idx g x y))" using u l by simp
qed

subsection \<open>\<^verbatim>\<open>domain_init\<close> returns when \<^verbatim>\<open>dims[1]\<close> is 1\<close>

lemma init_cell_succeeds:
  assumes "0 \<le> idx t x y" "idx t x y < int (length (temp0 t))"
    "length (temp1 t) = length (temp0 t)" "length (thermal_diffusivity t) = length (temp0 t)"
  shows "\<exists>t'. init_cell ox oy y x t = Inr t' \<and> frame t' = frame t \<and>
           length (temp0 t') = length (temp0 t) \<and> length (temp1 t') = length (temp0 t) \<and>
           length (thermal_diffusivity t') = length (temp0 t)"
  using assms
  by (simp add: init_cell_def T_set_def T_next_set_def THERMAL_DIFFUSIVITY_set_def err_bind_def
      store_def idx_def frame_def)

lemma cell_in_block:
  fixes x y n c :: int
  assumes "1 \<le> x" "x \<le> n" "1 \<le> y" "y \<le> c"
  shows "0 \<le> y * (n + 2) + x" "y * (n + 2) + x < (c + 2) * (n + 2)"
proof -
  define a where "a = y * (n + 2)"
  define b where "b = c * (n + 2)"
  have "0 \<le> a" using assms by (simp add: a_def)
  then show "0 \<le> y * (n + 2) + x" using assms unfolding a_def by linarith
  have "a \<le> b" unfolding a_def b_def using assms by (intro mult_right_mono) auto
  moreover have "(c + 2) * (n + 2) = b + (2 * n + 4)" by (simp add: b_def algebra_simps)
  ultimately show "y * (n + 2) + x < (c + 2) * (n + 2)" using assms unfolding a_def by linarith
qed

lemma length_malloc_cells:
  "0 \<le> n \<Longrightarrow> length (malloc (n * int sizeof_real_t) junk) = nat n"
  by (simp add: malloc_def sizeof_real_t_def nat_mult_distrib)

lemma domain_init_succeeds:
  assumes d0: "dims0 g \<noteq> 0" and d1: "dims1 g = 1"
  shows "\<exists>s. domain_init junk0 junk1 junk2 g = Inr s"
proof -
  let ?a = "domain_alloc junk0 junk1 junk2 g"
  let ?I = "\<lambda>t. frame t = frame ?a \<and> length (temp0 t) = length (temp0 ?a) \<and>
                 length (temp1 t) = length (temp0 ?a) \<and>
                 length (thermal_diffusivity t) = length (temp0 ?a)"
  have lr: "local_row g = N g" using d1 by (simp add: local_row_def c_div_1)
  have I0: "?I ?a" by (simp add: domain_alloc_def Let_def malloc_def)
  have "\<exists>s. for_loop 1 (local_col g)
          (\<lambda>y. for_loop 1 (local_row g) (init_cell (offset_x g) (offset_y g) y)) ?a = Inr s \<and>
          ?I s"
  proof (rule for_loop_total [where P = "\<lambda>_. ?I", OF I0])
    fix y t
    assume y: "1 \<le> y" "y \<le> local_col g" and It: "?I t"
    show "\<exists>t'. for_loop 1 (local_row g) (init_cell (offset_x g) (offset_y g) y) t = Inr t' \<and> ?I t'"
    proof (rule for_loop_total [where P = "\<lambda>_. ?I", OF It])
      fix x u
      assume x: "1 \<le> x" "x \<le> local_row g" and Iu: "?I u"
      have n: "N u = N g" using frame_eqD(1) [of u ?a] Iu by (simp add: alloc_cells)
      note b = cell_in_block [OF x(1) x(2) [unfolded lr] y]
      have "0 \<le> (local_col g + 2) * (N g + 2)" using b by linarith
      then have len: "int (length (temp0 ?a)) = (local_col g + 2) * (N g + 2)"
        by (simp add: domain_alloc_def Let_def lr length_malloc_cells)
      have "\<exists>u'. init_cell (offset_x g) (offset_y g) y x u = Inr u' \<and> frame u' = frame u \<and>
           length (temp0 u') = length (temp0 u) \<and> length (temp1 u') = length (temp0 u) \<and>
           length (thermal_diffusivity u') = length (temp0 u)"
        using b Iu len by (intro init_cell_succeeds) (simp_all add: idx_def n)
      with Iu show "\<exists>u'. init_cell (offset_x g) (offset_y g) y x u = Inr u' \<and> ?I u'"
        by auto
    qed
  qed
  with d0 d1 show ?thesis by (auto simp: domain_init_def)
qed

text \<open>
  With \<^verbatim>\<open>dims[1] = 1\<close> a row of the subgrid is as wide as the stride \<^verbatim>\<open>N + 2\<close> of the
  macros: \<^verbatim>\<open>domain_init\<close> returns, and what it leaves is as above.
\<close>

lemma domain_init_when_dims1_is_1:
  assumes "dims0 g \<noteq> 0" "dims1 g = 1"
  shows "\<exists>s. domain_init junk0 junk1 junk2 g = Inr s \<and>
    (\<forall>x y. 1 \<le> x \<and> x \<le> local_row g \<and> 1 \<le> y \<and> y \<le> local_col g \<longrightarrow>
       T s x y = Inr (init_temperature (offset_x g) (offset_y g) x y) \<and>
       T_next s x y = Inr (init_temperature (offset_x g) (offset_y g) x y)) \<and>
    (\<forall>x y. 0 \<le> x \<and> x \<le> local_row g + 1 \<and> 0 \<le> y \<and> y \<le> local_col g + 1 \<and>
       (x = 0 \<or> x = local_row g + 1 \<or> y = 0 \<or> y = local_col g + 1) \<and>
       0 \<le> idx g x y \<and> idx g x y < int (length (temp0 s)) \<longrightarrow>
       temp0 s ! nat (idx g x y) = junk0 (nat (idx g x y)) \<and>
       temp1 s ! nat (idx g x y) = junk1 (nat (idx g x y)) \<and>
       thermal_diffusivity s ! nat (idx g x y) = junk2 (nat (idx g x y)))"
proof -
  from assms obtain s where d: "domain_init junk0 junk1 junk2 g = Inr s"
    using domain_init_succeeds [of g junk0 junk1 junk2] by auto
  have p: "0 < dims1 g" using assms by simp
  from domain_init_where_it_returns [OF p d] d show ?thesis by blast
qed

subsection \<open>The stores of \<^verbatim>\<open>domain_init\<close> on a grid of processes (claim C10)\<close>

text \<open>
  Claim C10 says that \<^verbatim>\<open>domain_init\<close> writes the same temperature into both temperature
  buffers at every interior cell and writes no cell of the halo ring, so that afterwards
  the two buffers agree on the whole interior. \<^verbatim>\<open>domain_init\<close> allocates
  \<open>(local_col + 2) * (local_row + 2)\<close> cells for each buffer and addresses them through
  the macros with the stride \<^verbatim>\<open>N + 2\<close> of the global grid. On four processes
  (\<^verbatim>\<open>dims = {2, 2}\<close>) with \<^verbatim>\<open>M = N = 8\<close> the subgrid is 4 by 4, each block has 36
  cells, and the interior cell \<open>(1, 4)\<close> is cell 41 (its halo neighbour \<open>(0, 4)\<close> is cell
  40): the store of \<^verbatim>\<open>T(1, 4)\<close> leaves the block, which the C program does not notice
  and the model reports as \<open>OutOfBounds\<close>. The last interior row is in neither buffer.
\<close>

theorem domain_init_overruns_block_on_2x2:
  "local_row (start 0 4 2 2 0 0 8 8 0 1) = 4 \<and>
   local_col (start 0 4 2 2 0 0 8 8 0 1) = 4 \<and>
   length (temp0 (domain_alloc zero_mem zero_mem zero_mem (start 0 4 2 2 0 0 8 8 0 1))) = 36 \<and>
   length (temp1 (domain_alloc zero_mem zero_mem zero_mem (start 0 4 2 2 0 0 8 8 0 1))) = 36 \<and>
   idx (start 0 4 2 2 0 0 8 8 0 1) 1 4 = 41 \<and>
   idx (start 0 4 2 2 0 0 8 8 0 1) 0 4 = 40 \<and>
   domain_init zero_mem zero_mem zero_mem (start 0 4 2 2 0 0 8 8 0 1) = Inl OutOfBounds"
  by (simp add: model_defs for_loop.simps upt_rec Let_def)

subsection \<open>The subgrid extents (claim C5)\<close>

text \<open>
  Claim C5 says that the local extents are \<^verbatim>\<open>local_rows = M / dims[1]\<close> and
  \<^verbatim>\<open>local_cols = N / dims[0]\<close>. \<^verbatim>\<open>domain_init\<close> divides the other way round:
  \<^verbatim>\<open>local_col = M / dims[0]\<close> and \<^verbatim>\<open>local_row = N / dims[1]\<close>. On two processes
  (\<^verbatim>\<open>dims = {2, 1}\<close>) with \<^verbatim>\<open>M = 8\<close>, \<^verbatim>\<open>N = 4\<close> it derives 4 and 4, prints them and
  allocates 6 times 6 cells, where the claim's quotients are 8 and 2. The offsets multiply
  these extents by \<^verbatim>\<open>coord\<close>, so rank 1 at \<^verbatim>\<open>coord = {1, 0}\<close> starts at
  \<open>offset_x = 4\<close>, behind the last of the \<^verbatim>\<open>N = 4\<close> columns.
\<close>

theorem domain_init_extents_8x4_on_2x1:
  "local_col (start 0 2 2 1 0 0 8 4 0 1) = 4 \<and>
   local_row (start 0 2 2 1 0 0 8 4 0 1) = 4 \<and>
   c_div (M (start 0 2 2 1 0 0 8 4 0 1)) (dims1 (start 0 2 2 1 0 0 8 4 0 1)) = 8 \<and>
   c_div (N (start 0 2 2 1 0 0 8 4 0 1)) (dims0 (start 0 2 2 1 0 0 8 4 0 1)) = 2 \<and>
   offset_x (start 1 2 2 1 1 0 8 4 0 1) = 4 \<and>
   err_bind (domain_init zero_mem zero_mem zero_mem (start 0 2 2 1 0 0 8 4 0 1))
     (\<lambda>g. Inr (stdout g, length (temp0 g))) =
   Inr ([Local_size 0 4 4, Offset 0 0 0], 36)"
  by (simp add: model_defs for_loop.simps upt_rec Let_def)

section \<open>\<^verbatim>\<open>time_step\<close>\<close>

subsection \<open>What \<^verbatim>\<open>time_step\<close> stores\<close>

text \<open>
  When \<^verbatim>\<open>time_step\<close> returns, with \<^verbatim>\<open>size\<close> positive: the current buffer and the
  diffusivity are as before; every cell with \<open>1 \<le> x \<le> N/size\<close> and \<open>1 \<le> y \<le> M/size\<close>
  of the next buffer holds the update of the specification, computed on the state before
  the call; every other cell of the next buffer is as before. On one process these cells
  are the whole interior.
\<close>

lemma spec_stencil_frame_next: "spec_stencil g x y = spec_stencil (frame_next g) x y"
  by (simp add: spec_stencil_def frame_next_def T_def THERMAL_DIFFUSIVITY_def idx_def)

lemma frame_next_N: "N g = N (frame_next g)"
  by (simp add: frame_next_def)

lemma stencil_at_frame:
  assumes "frame_next t = frame_next s"
  shows "stencil_at t = stencil_at s" "N t = N s" "M t = M s" "size_g t = size_g s"
    "idx t = idx s" "temp0 t = temp0 s" "thermal_diffusivity t = thermal_diffusivity s"
proof -
  show n: "N t = N s"
    using arg_cong [OF assms, of N] by (simp add: frame_next_def)
  show "M t = M s"
    using arg_cong [OF assms, of M] by (simp add: frame_next_def)
  show "size_g t = size_g s"
    using arg_cong [OF assms, of size_g] by (simp add: frame_next_def)
  show "temp0 t = temp0 s"
    using arg_cong [OF assms, of temp0] by (simp add: frame_next_def)
  show "thermal_diffusivity t = thermal_diffusivity s"
    using arg_cong [OF assms, of thermal_diffusivity] by (simp add: frame_next_def)
  show "idx t = idx s"
    by (rule ext)+ (simp add: idx_def n)
  have "spec_stencil t x y = spec_stencil s x y" for x y
    using spec_stencil_frame_next [of t x y] spec_stencil_frame_next [of s x y] assms by simp
  then show "stencil_at t = stencil_at s"
    by (intro ext) (simp add: stencil_at_def n)
qed

lemma stepped_refl: "stepped {} s s"
  by (simp add: stepped_def)

lemma stepped_trans:
  assumes "stepped A s t" "stepped B t u"
  shows "stepped (A \<union> B) s u"
proof -
  from assms(1) have f: "frame_next t = frame_next s" by (simp add: stepped_def)
  note e = stencil_at_frame(1) [OF f]
  from assms show ?thesis
    unfolding stepped_def e by (auto split: if_splits)
qed

lemma for_loop_stepped:
  assumes loop: "for_loop lo hi body s = Inr s'"
    and step: "\<And>j t t'. lo \<le> j \<Longrightarrow> j \<le> hi \<Longrightarrow> frame_next t = frame_next s \<Longrightarrow>
                 body j t = Inr t' \<Longrightarrow> stepped (A j) t t'"
  shows "stepped (\<Union>j\<in>{lo..hi}. A j) s s'"
proof -
  let ?P = "\<lambda>j t. stepped (\<Union>k\<in>{lo..<j}. A k) s t"
  have "?P (max lo (hi + 1)) s'"
  proof (rule for_loop_rule [OF loop, where P = ?P])
    show "?P lo s" by (simp add: stepped_refl)
  next
    fix j t t'
    assume j: "lo \<le> j" "j \<le> hi" and p: "?P j t" and b: "body j t = Inr t'"
    from p have "frame_next t = frame_next s" by (simp add: stepped_def)
    from step [OF j this b] p have "stepped ((\<Union>k\<in>{lo..<j}. A k) \<union> A j) s t'"
      by (rule stepped_trans [rotated])
    moreover have "{lo..<j + 1} = insert j {lo..<j}" using j by auto
    ultimately show "?P (j + 1) t'" by (simp add: Un_commute)
  qed
  moreover have "{lo..<max lo (hi + 1)} = {lo..hi}" by auto
  ultimately show ?thesis by simp
qed

lemma time_step_cell_stepped:
  assumes c: "time_step_cell y x t = Inr t'"
    and r: "0 \<le> x" "x < N t + 2" "0 \<le> y"
  shows "stepped {nat (idx t x y)} t t'"
proof -
  from c obtain c0 tt bb ll rr K b1 where
    l: "T t x y = Inr c0" "T t (x - 1) y = Inr tt" "T t (x + 1) y = Inr bb"
       "T t x (y - 1) = Inr ll" "T t x (y + 1) = Inr rr" "THERMAL_DIFFUSIVITY t x y = Inr K" and
    s: "store (temp1 t) (idx t x y) (c0 + K * dt t * ((ll - 2 * c0 + rr) + (bb - 2 * c0 + tt))) = Inr b1" and
    t': "t' = t\<lparr>temp1 := b1\<rparr>"
    by (auto simp: time_step_cell_def T_next_set_def err_bind_def split: sum.splits)
  have a: "tt + bb + ll + rr - 4 * c0 = (ll - 2 * c0 + rr) + (bb - 2 * c0 + tt)"
    by simp
  have v: "spec_stencil t x y = Inr (c0 + K * dt t * ((ll - 2 * c0 + rr) + (bb - 2 * c0 + tt)))"
    unfolding spec_stencil_def l err_bind_def a by simp
  have "stencil_at t (nat (idx t x y)) = spec_stencil t x y"
    using idx_decode(2,3) [OF r] by (simp add: stencil_at_def)
  with v s show ?thesis
    by (auto simp: stepped_def t' frame_next_def store_def nth_list_update split: if_splits)
qed

lemma time_step_stepped:
  assumes d: "time_step g = Inr s" and p: "0 < size_g g"
  shows "stepped (stepped_cells g) g s"
proof -
  from d p have loop: "for_loop 1 (c_div (M g) (size_g g))
      (\<lambda>y. for_loop 1 (c_div (N g) (size_g g)) (time_step_cell y)) g = Inr s"
    by (simp add: time_step_def)
  have "stepped (\<Union>y\<in>{1 .. c_div (M g) (size_g g)}.
                 \<Union>x\<in>{1 .. c_div (N g) (size_g g)}. {nat (idx g x y)}) g s"
  proof (rule for_loop_stepped [OF loop])
    fix y t t'
    assume y: "1 \<le> y" "y \<le> c_div (M g) (size_g g)" and f: "frame_next t = frame_next g"
      and b: "for_loop 1 (c_div (N g) (size_g g)) (time_step_cell y) t = Inr t'"
    show "stepped (\<Union>x\<in>{1 .. c_div (N g) (size_g g)}. {nat (idx g x y)}) t t'"
    proof (rule for_loop_stepped [OF b])
      fix x u u'
      assume x: "1 \<le> x" "x \<le> c_div (N g) (size_g g)" and fu: "frame_next u = frame_next t"
        and c: "time_step_cell y x u = Inr u'"
      from fu f have fg: "frame_next u = frame_next g" by simp
      have "x \<le> N g" by (rule c_div_le [OF p x])
      then have "stepped {nat (idx u x y)} u u'"
        using x y by (intro time_step_cell_stepped [OF c]) (simp_all add: stencil_at_frame(2) [OF fg])
      then show "stepped {nat (idx g x y)} u u'"
        by (simp add: stencil_at_frame(5) [OF fg])
    qed
  qed
  moreover have "stepped_cells g = (\<Union>y\<in>{1 .. c_div (M g) (size_g g)}.
                 \<Union>x\<in>{1 .. c_div (N g) (size_g g)}. {nat (idx g x y)})"
    by (auto simp: stepped_cells_def)
  ultimately show ?thesis by simp
qed

lemma time_step_result:
  assumes d: "time_step g = Inr s" and p: "0 < size_g g"
  shows "temp0 s = temp0 g" "thermal_diffusivity s = thermal_diffusivity g"
    and "1 \<le> x \<Longrightarrow> x \<le> c_div (N g) (size_g g) \<Longrightarrow> 1 \<le> y \<Longrightarrow> y \<le> c_div (M g) (size_g g) \<Longrightarrow>
         T_next s x y = spec_stencil g x y"
    and "k < length (temp1 g) \<Longrightarrow> k \<notin> stepped_cells g \<Longrightarrow> temp1 s ! k = temp1 g ! k"
proof -
  note S = time_step_stepped [OF d p, unfolded stepped_def]
  from S have f: "frame_next s = frame_next g" by simp
  show "temp0 s = temp0 g" "thermal_diffusivity s = thermal_diffusivity g"
    by (rule stencil_at_frame(6,7) [OF f])+
  show "temp1 s ! k = temp1 g ! k" if "k < length (temp1 g)" "k \<notin> stepped_cells g"
    using S that by auto
  show "T_next s x y = spec_stencil g x y"
    if x: "1 \<le> x" "x \<le> c_div (N g) (size_g g)" and y: "1 \<le> y" "y \<le> c_div (M g) (size_g g)"
  proof -
    have "x \<le> N g" by (rule c_div_le [OF p x])
    then have r: "0 \<le> x" "x < N g + 2" "0 \<le> y" using x y by simp_all
    let ?k = "nat (idx g x y)"
    have k: "?k \<in> stepped_cells g" using x y by (auto simp: stepped_cells_def)
    with S have kl: "?k < length (temp1 s)" and v: "stencil_at g ?k = Inr (temp1 s ! ?k)"
      by auto
    have "stencil_at g ?k = spec_stencil g x y"
      using idx_decode(2,3) [OF r] by (simp add: stencil_at_def)
    with v kl idx_decode(1) [OF r] show ?thesis
      by (simp add: T_next_def load_def stencil_at_frame(5) [OF f])
  qed
qed

subsection \<open>\<^verbatim>\<open>time_step\<close> on several processes (claim C1)\<close>

text \<open>
  Claim C1 says that one update stores, for every interior cell of the local subgrid, the
  value of \<open>spec_stencil\<close> into the next buffer. The loops of \<^verbatim>\<open>time_step\<close> run to
  \<^verbatim>\<open>M/size\<close> and \<^verbatim>\<open>N/size\<close> (its TODO 3 asks for the process's own subgrid). On
  four processes (\<^verbatim>\<open>dims = {2, 2}\<close>) with \<^verbatim>\<open>M = N = 4\<close> the subgrid is 2 by 2 and
  the loops visit the cell (1, 1) only: after the step the interior cell (2, 1) of the
  next buffer still holds the value \<^verbatim>\<open>domain_init\<close> gave it, which is not the value of
  the update there.
\<close>

theorem time_step_skips_interior_cell_on_2x2:
  "err_bind (domain_init zero_mem zero_mem zero_mem (start 0 4 2 2 0 0 4 4 0 1))
     (\<lambda>g. err_bind (time_step g) (\<lambda>g'. T_next g' 2 1)) =
   Inr (30 + 30 * sin (3 / 20)) \<and>
   err_bind (domain_init zero_mem zero_mem zero_mem (start 0 4 2 2 0 0 4 4 0 1))
     (\<lambda>g. spec_stencil g 2 1) \<noteq>
   Inr (30 + 30 * sin (3 / 20))"
proof -
  have s1: "sin (1 / 10 :: real) \<le> 1" and s2: "sin (1 / 5 :: real) \<le> 1"
    by (rule sin_le_one)+
  have s3: "0 < sin (3 / 20 :: real)"
    by (rule sin_pos_small) simp_all
  have K: "0 < 1 / 20 + (30 + 30 * sin (3 / 20 :: real)) / 605"
    using s3 by (simp add: add_pos_pos)
  have B: "30 * sin (1 / 10 :: real) + (30 * sin (1 / 5) - 120 * sin (3 / 20)) - 60 < 0"
    using s1 s2 s3 by linarith
  have "(1 / 20 + (30 + 30 * sin (3 / 20 :: real)) / 605) *
        (30 * sin (1 / 10) + (30 * sin (1 / 5) - 120 * sin (3 / 20)) - 60) < 0"
    by (rule mult_pos_neg [OF K B])
  then have ne: "(1 / 20 + (30 + 30 * sin (3 / 20 :: real)) / 605) *
        (30 * sin (1 / 10) + (30 * sin (1 / 5) - 120 * sin (3 / 20)) - 60) \<noteq> 0"
    by (rule less_imp_neq)
  have a: "err_bind (domain_init zero_mem zero_mem zero_mem (start 0 4 2 2 0 0 4 4 0 1))
     (\<lambda>g. err_bind (time_step g) (\<lambda>g'. T_next g' 2 1)) = Inr (30 + 30 * sin (3 / 20))"
    by (simp add: model_defs for_loop.simps upt_rec Let_def)
  have b: "err_bind (domain_init zero_mem zero_mem zero_mem (start 0 4 2 2 0 0 4 4 0 1))
     (\<lambda>g. spec_stencil g 2 1) =
       Inr (30 + 30 * sin (3 / 20) +
            (1 / 20 + (30 + 30 * sin (3 / 20)) / 605) *
            (30 * sin (1 / 10) + (30 * sin (1 / 5) - 120 * sin (3 / 20)) - 60) / 10)"
    by (simp add: model_defs for_loop.simps upt_rec Let_def)
  show ?thesis
    unfolding a b using ne by simp
qed

section \<open>\<^verbatim>\<open>boundary_condition\<close>\<close>

subsection \<open>\<^verbatim>\<open>boundary_condition\<close> on one process\<close>

text \<open>
  On one process \<^verbatim>\<open>boundary_condition\<close> returns, leaves every interior cell as it was,
  and every halo cell along the four edges equals the interior cell two steps in.
\<close>

lemma grid_in_block:
  fixes x y n m :: int
  assumes "0 \<le> x" "x \<le> n + 1" "0 \<le> y" "y \<le> m + 1"
  shows "0 \<le> y * (n + 2) + x" "y * (n + 2) + x < (m + 2) * (n + 2)"
proof -
  define a where "a = y * (n + 2)"
  define b where "b = (m + 1) * (n + 2)"
  have "0 \<le> a" using assms by (simp add: a_def)
  then show "0 \<le> y * (n + 2) + x" using assms unfolding a_def by linarith
  have "a \<le> b" unfolding a_def b_def using assms by (intro mult_right_mono) auto
  moreover have "(m + 2) * (n + 2) = b + (n + 2)" by (simp add: b_def algebra_simps)
  ultimately show "y * (n + 2) + x < (m + 2) * (n + 2)" using assms unfolding a_def by linarith
qed

lemma copy_cell_eq:
  assumes len: "int (length (temp0 t)) = (M t + 2) * (N t + 2)"
    and d: "0 \<le> xd" "xd \<le> N t + 1" "0 \<le> yd" "yd \<le> M t + 1"
    and s: "0 \<le> xs" "xs \<le> N t + 1" "0 \<le> ys" "ys \<le> M t + 1"
  shows "copy_cell xd yd xs ys t =
         Inr (t\<lparr>temp0 := (temp0 t)[nat (idx t xd yd) := cell t xs ys]\<rparr>)"
  using grid_in_block [OF d] grid_in_block [OF s] len
  by (simp add: copy_cell_def T_def T_set_def load_def store_def err_bind_def idx_def cell_def)

lemma cell_copy:
  assumes len: "int (length (temp0 t)) = (M t + 2) * (N t + 2)"
    and d: "0 \<le> xd" "xd \<le> N t + 1" "0 \<le> yd" "yd \<le> M t + 1"
    and c: "0 \<le> x" "x \<le> N t + 1" "0 \<le> y" "y \<le> M t + 1"
  shows "cell (t\<lparr>temp0 := (temp0 t)[nat (idx t xd yd) := v]\<rparr>) x y =
         (if x = xd \<and> y = yd then v else cell t x y)"
proof -
  have i: "idx (t\<lparr>temp0 := (temp0 t)[nat (idx t xd yd) := v]\<rparr>) x y = idx t x y"
    by (simp add: idx_def)
  have b: "nat (idx t xd yd) < length (temp0 t)"
    using grid_in_block [OF d] len by (simp add: idx_def)
  have "nat (idx t xd yd) = nat (idx t x y) \<longleftrightarrow> x = xd \<and> y = yd"
    using idx_inj [of xd t yd x y] d c by auto
  with b show ?thesis
    by (simp add: cell_def i nth_list_update)
qed

lemma shapeD:
  assumes "shape g t"
  shows "N t = N g" "M t = M g" "rank t = rank g" "size_g t = size_g g" "dims0 t = dims0 g"
    "dims1 t = dims1 g" "length (temp0 t) = length (temp0 g)" "idx t = idx g"
proof -
  from assms have f: "frame_current t = frame_current g" by (simp add: shape_def)
  show n: "N t = N g" using arg_cong [OF f, of N] by (simp add: frame_current_def)
  show "M t = M g" using arg_cong [OF f, of M] by (simp add: frame_current_def)
  show "rank t = rank g" using arg_cong [OF f, of rank] by (simp add: frame_current_def)
  show "size_g t = size_g g" using arg_cong [OF f, of size_g] by (simp add: frame_current_def)
  show "dims0 t = dims0 g" using arg_cong [OF f, of dims0] by (simp add: frame_current_def)
  show "dims1 t = dims1 g" using arg_cong [OF f, of dims1] by (simp add: frame_current_def)
  show "length (temp0 t) = length (temp0 g)" using assms by (simp add: shape_def)
  show "idx t = idx g" by (rule ext)+ (simp add: idx_def n)
qed

lemma shape_refl: "shape g g"
  by (simp add: shape_def)

lemma shape_update: "shape g t \<Longrightarrow> shape g (t\<lparr>temp0 := (temp0 t)[k := v]\<rparr>)"
  by (simp add: shape_def frame_current_def)

lemma mirror_rows_loop:
  assumes g: "serial g"
  shows "\<exists>s. for_loop 1 (N g) mirror_rows g = Inr s \<and> shape g s \<and>
           (\<forall>x y. 0 \<le> x \<and> x \<le> N g + 1 \<and> 0 \<le> y \<and> y \<le> M g + 1 \<longrightarrow>
              cell s x y = (if 1 \<le> x \<and> x \<le> N g \<and> y = 0 then cell g x 2
                            else if 1 \<le> x \<and> x \<le> N g \<and> y = M g + 1 then cell g x (M g - 1)
                            else cell g x y))"
proof -
  let ?P = "\<lambda>j t. shape g t \<and>
           (\<forall>x y. 0 \<le> x \<and> x \<le> N g + 1 \<and> 0 \<le> y \<and> y \<le> M g + 1 \<longrightarrow>
              cell t x y = (if 1 \<le> x \<and> x < j \<and> y = 0 then cell g x 2
                            else if 1 \<le> x \<and> x < j \<and> y = M g + 1 then cell g x (M g - 1)
                            else cell g x y))"
  have "\<exists>s. for_loop 1 (N g) mirror_rows g = Inr s \<and> ?P (max 1 (N g + 1)) s"
  proof (rule for_loop_total [where P = ?P])
    show "?P 1 g" by (simp add: shape_refl)
  next
    fix j t
    assume j: "1 \<le> j" "j \<le> N g" and p: "?P j t"
    then have sh: "shape g t" by simp
    note e = shapeD [OF sh]
    have len: "int (length (temp0 t)) = (M t + 2) * (N t + 2)"
      using g by (simp add: e serial_def)
    have mn: "2 \<le> M g" "2 \<le> N g" "dims1 g = 1" using g by (simp_all add: serial_def)
    let ?t1 = "t\<lparr>temp0 := (temp0 t)[nat (idx t j 0) := cell t j 2]\<rparr>"
    let ?t2 = "?t1\<lparr>temp0 := (temp0 ?t1)[nat (idx ?t1 j (M g + 1)) := cell ?t1 j (M g - 1)]\<rparr>"
    have c1: "copy_cell j 0 j 2 t = Inr ?t1"
      using j mn by (intro copy_cell_eq [OF len]) (simp_all add: e)
    have sh1: "shape g ?t1" by (rule shape_update [OF sh])
    note e1 = shapeD [OF sh1]
    have len1: "int (length (temp0 ?t1)) = (M ?t1 + 2) * (N ?t1 + 2)"
      using len by simp
    have c2: "copy_cell j (M g + 1) j (M g - 1) ?t1 = Inr ?t2"
      using j mn by (intro copy_cell_eq [OF len1]) (simp_all add: e)
    have b: "mirror_rows j t = Inr ?t2"
      using mn by (simp add: mirror_rows_def c1 err_bind_def e(2,6) c_div_1 c2)
    have sh2: "shape g ?t2" by (rule shape_update [OF sh1])
    have v1: "cell ?t1 x y = (if x = j \<and> y = 0 then cell t j 2 else cell t x y)"
      if "0 \<le> x" "x \<le> N g + 1" "0 \<le> y" "y \<le> M g + 1" for x y
      using that j mn by (intro cell_copy [OF len]) (simp_all add: e)
    have v2: "cell ?t2 x y = (if x = j \<and> y = M g + 1 then cell ?t1 j (M g - 1) else cell ?t1 x y)"
      if "0 \<le> x" "x \<le> N g + 1" "0 \<le> y" "y \<le> M g + 1" for x y
      using that j mn by (intro cell_copy [OF len1]) (simp_all add: e)
    have "cell ?t2 x y = (if 1 \<le> x \<and> x < j + 1 \<and> y = 0 then cell g x 2
                            else if 1 \<le> x \<and> x < j + 1 \<and> y = M g + 1 then cell g x (M g - 1)
                            else cell g x y)"
      if r: "0 \<le> x" "x \<le> N g + 1" "0 \<le> y" "y \<le> M g + 1" for x y
    proof -
      have a: "cell t j 2 = cell g j 2" "cell t j (M g - 1) = cell g j (M g - 1)"
        using p j mn by simp_all
      have "cell ?t1 j (M g - 1) = cell t j (M g - 1)"
        using v1 [of j "M g - 1"] j mn by simp
      with v2 [OF r] v1 [OF r] a p r j mn show ?thesis by auto
    qed
    with b sh2 show "\<exists>t'. mirror_rows j t = Inr t' \<and> ?P (j + 1) t'" by simp
  qed
  moreover have "max 1 (N g + 1) = N g + 1" using g by (simp add: serial_def)
  ultimately show ?thesis by auto
qed

lemma mirror_column_loop:
  assumes g: "serial g" and sh0: "shape g t0"
    and body: "\<And>y t. shape g t \<Longrightarrow> body y t = copy_cell xd y xs y t"
    and xd: "0 \<le> xd" "xd \<le> N g + 1" and xs: "0 \<le> xs" "xs \<le> N g + 1" and ne: "xd \<noteq> xs"
  shows "\<exists>s. for_loop 1 (M g) body t0 = Inr s \<and> shape g s \<and>
           (\<forall>x y. 0 \<le> x \<and> x \<le> N g + 1 \<and> 0 \<le> y \<and> y \<le> M g + 1 \<longrightarrow>
              cell s x y = (if x = xd \<and> 1 \<le> y \<and> y \<le> M g then cell t0 xs y else cell t0 x y))"
proof -
  let ?P = "\<lambda>j t. shape g t \<and>
           (\<forall>x y. 0 \<le> x \<and> x \<le> N g + 1 \<and> 0 \<le> y \<and> y \<le> M g + 1 \<longrightarrow>
              cell t x y = (if x = xd \<and> 1 \<le> y \<and> y < j then cell t0 xs y else cell t0 x y))"
  have "\<exists>s. for_loop 1 (M g) body t0 = Inr s \<and> ?P (max 1 (M g + 1)) s"
  proof (rule for_loop_total [where P = ?P])
    show "?P 1 t0" by (simp add: sh0)
  next
    fix j t
    assume j: "1 \<le> j" "j \<le> M g" and p: "?P j t"
    then have sh: "shape g t" by simp
    note e = shapeD [OF sh]
    have len: "int (length (temp0 t)) = (M t + 2) * (N t + 2)"
      using g by (simp add: e serial_def)
    let ?t1 = "t\<lparr>temp0 := (temp0 t)[nat (idx t xd j) := cell t xs j]\<rparr>"
    have c1: "body j t = Inr ?t1"
      unfolding body [OF sh] using j xd xs by (intro copy_cell_eq [OF len]) (simp_all add: e)
    have sh1: "shape g ?t1" by (rule shape_update [OF sh])
    have v1: "cell ?t1 x y = (if x = xd \<and> y = j then cell t xs j else cell t x y)"
      if "0 \<le> x" "x \<le> N g + 1" "0 \<le> y" "y \<le> M g + 1" for x y
      using that j xd by (intro cell_copy [OF len]) (simp_all add: e)
    have "cell ?t1 x y = (if x = xd \<and> 1 \<le> y \<and> y < j + 1 then cell t0 xs y else cell t0 x y)"
      if r: "0 \<le> x" "x \<le> N g + 1" "0 \<le> y" "y \<le> M g + 1" for x y
    proof -
      have "cell t xs j = cell t0 xs j" using p j xs ne by simp
      with v1 [OF r] p r j show ?thesis by auto
    qed
    with c1 sh1 show "\<exists>t'. body j t = Inr t' \<and> ?P (j + 1) t'" by simp
  qed
  moreover have "max 1 (M g + 1) = M g + 1" using g by (simp add: serial_def)
  ultimately show ?thesis by auto
qed

lemma boundary_condition_serial:
  assumes g: "serial g"
  shows "\<exists>s. boundary_condition g = Inr s \<and> shape g s \<and>
           (\<forall>x. 1 \<le> x \<and> x \<le> N g \<longrightarrow>
              cell s x 0 = cell s x 2 \<and> cell s x (M g + 1) = cell s x (M g - 1)) \<and>
           (\<forall>y. 1 \<le> y \<and> y \<le> M g \<longrightarrow>
              cell s 0 y = cell s 2 y \<and> cell s (N g + 1) y = cell s (N g - 1) y) \<and>
           (\<forall>x y. 1 \<le> x \<and> x \<le> N g \<and> 1 \<le> y \<and> y \<le> M g \<longrightarrow> cell s x y = cell g x y)"
proof -
  have mn: "2 \<le> M g" "2 \<le> N g" "dims0 g = 1" "dims1 g = 1" "rank g = 0" "size_g g = 1"
    using g by (simp_all add: serial_def)
  from mirror_rows_loop [OF g] obtain s1 where
    l1: "for_loop 1 (N g) mirror_rows g = Inr s1" and sh1: "shape g s1" and
    v1: "\<And>x y. 0 \<le> x \<Longrightarrow> x \<le> N g + 1 \<Longrightarrow> 0 \<le> y \<Longrightarrow> y \<le> M g + 1 \<Longrightarrow>
              cell s1 x y = (if 1 \<le> x \<and> x \<le> N g \<and> y = 0 then cell g x 2
                            else if 1 \<le> x \<and> x \<le> N g \<and> y = M g + 1 then cell g x (M g - 1)
                            else cell g x y)"
    by blast
  note e1 = shapeD [OF sh1]
  have "\<exists>s. for_loop 1 (M g) mirror_left s1 = Inr s \<and> shape g s \<and>
           (\<forall>x y. 0 \<le> x \<and> x \<le> N g + 1 \<and> 0 \<le> y \<and> y \<le> M g + 1 \<longrightarrow>
              cell s x y = (if x = 0 \<and> 1 \<le> y \<and> y \<le> M g then cell s1 2 y else cell s1 x y))"
    using mn by (intro mirror_column_loop [OF g sh1]) (simp_all add: mirror_left_def)
  then obtain s2 where
    l2: "for_loop 1 (M g) mirror_left s1 = Inr s2" and sh2: "shape g s2" and
    v2: "\<And>x y. 0 \<le> x \<Longrightarrow> x \<le> N g + 1 \<Longrightarrow> 0 \<le> y \<Longrightarrow> y \<le> M g + 1 \<Longrightarrow>
              cell s2 x y = (if x = 0 \<and> 1 \<le> y \<and> y \<le> M g then cell s1 2 y else cell s1 x y)"
    by blast
  note e2 = shapeD [OF sh2]
  have "\<exists>s. for_loop 1 (M g) mirror_right s2 = Inr s \<and> shape g s \<and>
           (\<forall>x y. 0 \<le> x \<and> x \<le> N g + 1 \<and> 0 \<le> y \<and> y \<le> M g + 1 \<longrightarrow>
              cell s x y = (if x = N g + 1 \<and> 1 \<le> y \<and> y \<le> M g then cell s2 (N g - 1) y
                            else cell s2 x y))"
    using mn by (intro mirror_column_loop [OF g sh2]) (simp_all add: mirror_right_def shapeD c_div_1)
  then obtain s3 where
    l3: "for_loop 1 (M g) mirror_right s2 = Inr s3" and sh3: "shape g s3" and
    v3: "\<And>x y. 0 \<le> x \<Longrightarrow> x \<le> N g + 1 \<Longrightarrow> 0 \<le> y \<Longrightarrow> y \<le> M g + 1 \<Longrightarrow>
              cell s3 x y = (if x = N g + 1 \<and> 1 \<le> y \<and> y \<le> M g then cell s2 (N g - 1) y
                            else cell s2 x y)"
    by blast
  have b: "boundary_condition g = Inr s3"
    using mn by (simp add: boundary_condition_def c_div_1 l1 err_bind_def e1(2-6) l2 e2(2-6) l3)
  have "cell s3 x 0 = cell s3 x 2 \<and> cell s3 x (M g + 1) = cell s3 x (M g - 1)"
    if "1 \<le> x" "x \<le> N g" for x
    using that mn by (simp add: v1 v2 v3)
  moreover have "cell s3 0 y = cell s3 2 y \<and> cell s3 (N g + 1) y = cell s3 (N g - 1) y"
    if "1 \<le> y" "y \<le> M g" for y
    using that mn by (simp add: v1 v2 v3)
  moreover have "cell s3 x y = cell g x y" if "1 \<le> x" "x \<le> N g" "1 \<le> y" "y \<le> M g" for x y
    using that mn by (simp add: v1 v2 v3)
  ultimately show ?thesis using b sh3 by blast
qed

lemma T_cell:
  assumes "serial g" "shape g s" "0 \<le> x" "x \<le> N g + 1" "0 \<le> y" "y \<le> M g + 1"
  shows "T s x y = Inr (cell s x y)"
  using grid_in_block [OF assms(3-6)] assms(1) shapeD(1,7) [OF assms(2)]
  by (simp add: T_def load_def cell_def idx_def serial_def)

subsection \<open>\<^verbatim>\<open>boundary_condition\<close> on several processes (claim C4)\<close>

text \<open>
  Claim C4 says that each edge is mirrored only on the subgrids that the process
  coordinates place at that global edge. \<^verbatim>\<open>boundary_condition\<close> mirrors the rows
  \<open>y = 0\<close> and \<open>y = M/dims[1] + 1\<close> on every process, and the columns on rank 0 and on
  rank \<^verbatim>\<open>size - 1\<close> (its TODO 4 asks for the cartesian topology). On four processes
  (\<^verbatim>\<open>dims = {2, 2}\<close>) with \<^verbatim>\<open>M = N = 4\<close>:
  \<^item> on the buffers that \<^verbatim>\<open>domain_init\<close> allocates (4 by 4 cells, indexed with the
    stride \<^verbatim>\<open>N + 2 = 6\<close>) the call leaves the block;
  \<^item> on a block of 6 by 6 cells holding 0 to 35, rank 0 at \<^verbatim>\<open>coord = {0, 0}\<close>
    overwrites both halo rows, \<open>y = 0\<close> (cells 1, 2) and \<open>y = 3\<close> (cells 19, 20),
    although it has a neighbour along y;
  \<^item> rank 1 at \<^verbatim>\<open>coord = {0, 1}\<close> does the same and leaves the halo column \<open>x = 0\<close>
    (cells 6, 12) alone, although \<^verbatim>\<open>coord[0] = 0\<close> places it at that global edge.
\<close>

theorem boundary_condition_ignores_coord_on_2x2:
  "err_bind (domain_init zero_mem zero_mem zero_mem (start 0 4 2 2 0 0 4 4 0 1)) boundary_condition =
   Inl OutOfBounds \<and>
   boundary_condition ((start 0 4 2 2 0 0 4 4 0 1)\<lparr>temp0 := ramp 36\<rparr>) =
   Inr ((start 0 4 2 2 0 0 4 4 0 1)\<lparr>temp0 :=
          [0, 13, 14, 3, 4, 5,
           8, 7, 8, 9, 10, 11,
           14, 13, 14, 15, 16, 17,
           18, 7, 8, 21, 22, 23,
           24, 25, 26, 27, 28, 29,
           30, 31, 32, 33, 34, 35]\<rparr>) \<and>
   boundary_condition ((start 1 4 2 2 0 1 4 4 0 1)\<lparr>temp0 := ramp 36\<rparr>) =
   Inr ((start 1 4 2 2 0 1 4 4 0 1)\<lparr>temp0 :=
          [0, 13, 14, 3, 4, 5,
           6, 7, 8, 9, 10, 11,
           12, 13, 14, 15, 16, 17,
           18, 7, 8, 21, 22, 23,
           24, 25, 26, 27, 28, 29,
           30, 31, 32, 33, 34, 35]\<rparr>)"
  by (simp add: model_defs for_loop.simps upt_rec Let_def)

section \<open>\<^verbatim>\<open>main\<close>\<close>

subsection \<open>The passes of the loop of \<^verbatim>\<open>main\<close>\<close>

text \<open>
  On rank 0 with \<^verbatim>\<open>snapshot_frequency = 1\<close> the loop returns after printing one
  progress line for each iteration from 0 to \<^verbatim>\<open>max_iteration\<close>, and the two buffers
  have changed places once per pass.
\<close>

lemma c_mod_1: "c_mod i 1 = 0"
  by (simp add: c_mod_def)

lemma main_loop_passes:
  assumes r: "rank g = 0" and sf: "snapshot_frequency g = 1" and mi: "0 \<le> max_iteration g"
  shows "\<exists>s. main_loop g = Inr s \<and>
           stdout s = stdout g @ map (\<lambda>i. Progress i (max_iteration g)) [0..max_iteration g] \<and>
           temp0 s = (if even (max_iteration g) then temp1 g else temp0 g) \<and>
           temp1 s = (if even (max_iteration g) then temp0 g else temp1 g)"
proof -
  let ?P = "\<lambda>j (t :: state).
      rank t = 0 \<and> snapshot_frequency t = 1 \<and> max_iteration t = max_iteration g \<and>
      stdout t = stdout g @ map (\<lambda>i. Progress i (max_iteration g)) [0..j - 1] \<and>
      temp0 t = (if even j then temp0 g else temp1 g) \<and>
      temp1 t = (if even j then temp1 g else temp0 g)"
  have "\<exists>s. for_loop 0 (max_iteration g) iteration_body g = Inr s \<and>
          ?P (max 0 (max_iteration g + 1)) s"
  proof (rule for_loop_total [where P = ?P])
    show "?P 0 g" using r sf by simp
  next
    fix j and t :: state
    assume j: "0 \<le> j" "j \<le> max_iteration g" and p: "?P j t"
    have u: "[0..j] = [0..j - 1] @ [j]" using j(1) by (rule upto_rec2)
    show "\<exists>t'. iteration_body j t = Inr t' \<and> ?P (j + 1) t'"
      using p u by (simp add: iteration_body_def c_mod_1 swap_def Let_def)
  qed
  with mi show ?thesis by (auto simp: main_loop_def max_def)
qed

subsection \<open>The whole run writes no file\<close>

lemma iteration_body_frame:
  assumes "iteration_body i t = Inr t'"
  shows "files t' = files t" "snapshot_frequency t' = snapshot_frequency t"
    "thermal_diffusivity t' = thermal_diffusivity t" "temp0 t' = temp1 t" "temp1 t' = temp0 t"
  using assms by (auto simp: iteration_body_def swap_def Let_def split: if_splits)

lemma main_loop_returns:
  assumes "snapshot_frequency g \<noteq> 0"
  shows "\<exists>s. main_loop g = Inr s \<and> files s = files g \<and>
           thermal_diffusivity s = thermal_diffusivity g"
proof -
  let ?P = "\<lambda>t :: state. snapshot_frequency t = snapshot_frequency g \<and> files t = files g \<and>
                thermal_diffusivity t = thermal_diffusivity g"
  have "\<exists>s. for_loop 0 (max_iteration g) iteration_body g = Inr s \<and> ?P s"
  proof (rule for_loop_total [where P = "\<lambda>_. ?P"])
    show "?P g" by simp
  next
    fix j and t :: state
    assume "?P t"
    with assms obtain t' where b: "iteration_body j t = Inr t'"
      by (auto simp: iteration_body_def Let_def)
    with \<open>?P t\<close> iteration_body_frame [OF b]
    show "\<exists>t'. iteration_body j t = Inr t' \<and> ?P t'" by simp
  qed
  then show ?thesis by (auto simp: main_loop_def)
qed

lemma main_writes_no_file:
  assumes "dims0 g \<noteq> 0" "dims1 g = 1" "snapshot_frequency g \<noteq> 0"
  shows "\<exists>s. main junk0 junk1 junk2 g = Inr s \<and> files s = files g"
proof -
  from assms obtain s0 where d: "domain_init junk0 junk1 junk2 g = Inr s0"
    using domain_init_succeeds [of g junk0 junk1 junk2] by auto
  have p: "0 < dims1 g" using assms by simp
  note sc = domain_init_scalars [OF d p]
  from main_loop_returns [of s0] assms sc show ?thesis
    by (auto simp: main_def d err_bind_def)
qed

subsection \<open>The loop of \<^verbatim>\<open>main\<close> (claims C2, C3, C6)\<close>

text \<open>
  Claim C2 says that every pass of the loop runs the halo exchange, the boundary
  condition, the stencil update and the swap, with the checkpoint writer on its cadence.
  On one process with \<^verbatim>\<open>M = N = 2\<close>, \<^verbatim>\<open>max_iteration = 0\<close> and
  \<^verbatim>\<open>snapshot_frequency = 1\<close>, in memory that held zeros, the whole run ends in the state
  below: both buffers hold the initial condition on the interior, every halo cell still
  holds its zero, the progress line is printed and no file exists. The pass has printed
  and swapped, nothing else.
\<close>

theorem main_serial_2x2_only_swaps:
  "main zero_mem zero_mem zero_mem (start 0 1 1 1 0 0 2 2 0 1) =
   Inr \<lparr>rank = 0, size_g = 1, dims0 = 1, dims1 = 1, coord0 = 0, coord1 = 0,
         M = 2, N = 2, max_iteration = 0, snapshot_frequency = 1,
         temp0 = [0, 0, 0, 0,
                  0, 30 + 30 * sin (1 / 10), 30 + 30 * sin (3 / 20), 0,
                  0, 30 + 30 * sin (3 / 20), 30 + 30 * sin (1 / 5), 0,
                  0, 0, 0, 0],
         temp1 = [0, 0, 0, 0,
                  0, 30 + 30 * sin (1 / 10), 30 + 30 * sin (3 / 20), 0,
                  0, 30 + 30 * sin (3 / 20), 30 + 30 * sin (1 / 5), 0,
                  0, 0, 0, 0],
         thermal_diffusivity =
                 [0, 0, 0, 0,
                  0, 1 / 20 + (30 + 30 * sin (1 / 10)) / 605, 1 / 20 + (30 + 30 * sin (1 / 20)) / 605, 0,
                  0, 1 / 20 + (30 + 30 * sin (3 / 20)) / 605, 1 / 20 + (30 + 30 * sin (1 / 10)) / 605, 0,
                  0, 0, 0, 0],
         dt = 1 / 10,
         stdout = [Local_size 0 2 2, Offset 0 0 0, Progress 0 0],
         can_open = (\<lambda>_. True), files = Map.empty\<rparr>"
  by (simp add: model_defs for_loop.simps upt_rec Let_def)

text \<open>
  Claim C3 says that after the halo exchange of an iteration the halo ring of a subgrid
  equals the neighbour's interior ring. \<^verbatim>\<open>border_exchange\<close> has no body and the loop
  does not call it. On two processes (\<^verbatim>\<open>dims = {2, 1}\<close>, \<^verbatim>\<open>M = N = 2\<close>) rank 0 at
  \<^verbatim>\<open>coord = {0, 0}\<close> and rank 1 at \<^verbatim>\<open>coord = {1, 0}\<close> are neighbours along x. After
  the whole run the halo cell \<^verbatim>\<open>T(3, 1)\<close> of rank 0 still holds what the memory held,
  here zero, and the interior cell \<^verbatim>\<open>T(1, 1)\<close> of rank 1 next to it holds its initial
  value, which is positive.
\<close>

theorem halo_not_exchanged_on_2x1:
  "err_bind (main zero_mem zero_mem zero_mem (start 0 2 2 1 0 0 2 2 0 1)) (\<lambda>g. T g 3 1) = Inr 0 \<and>
   err_bind (main zero_mem zero_mem zero_mem (start 1 2 2 1 1 0 2 2 0 1)) (\<lambda>g. T g 1 1) =
     Inr (30 + 30 * sin (1 / 5)) \<and>
   (0::real) < 30 + 30 * sin (1 / 5)"
proof -
  have "0 < sin (1 / 5 :: real)"
    by (rule sin_pos_small) simp_all
  then have "(0::real) < 30 + 30 * sin (1 / 5)"
    by simp
  then show ?thesis
    by (simp add: model_defs for_loop.simps upt_rec Let_def)
qed

text \<open>
  Claim C6 says that a checkpoint is produced at every iteration with
  \<^verbatim>\<open>iteration % snapshot_frequency == 0\<close>, iteration 0 included. The call of
  \<^verbatim>\<open>domain_save\<close> is a comment in the source. On one process with \<^verbatim>\<open>M = N = 2\<close>,
  \<^verbatim>\<open>max_iteration = 2\<close> and \<^verbatim>\<open>snapshot_frequency = 2\<close> the iterations 0 and 2 are on
  the cadence, the progress lines of both are printed, and the run ends without any file.
\<close>

theorem main_writes_no_checkpoint:
  "c_mod 0 2 = 0 \<and> c_mod 2 2 = 0 \<and>
   err_bind (main zero_mem zero_mem zero_mem (start 0 1 1 1 0 0 2 2 2 2))
     (\<lambda>g. Inr (stdout g, dom (files g))) =
   Inr ([Local_size 0 2 2, Offset 0 0 0, Progress 0 2, Progress 2 2], {})"
  by (simp add: model_defs for_loop.simps upt_rec Let_def)

section \<open>\<^verbatim>\<open>domain_save\<close>\<close>

subsection \<open>What \<^verbatim>\<open>domain_save\<close> writes after \<^verbatim>\<open>domain_init\<close>\<close>

lemma load_block_row:
  assumes "0 < n" "0 \<le> c" "c + 1 + n \<le> int (length b)"
  shows "load_block b (c + 1) n = Inr (map (\<lambda>x. b ! nat (c + x)) [1..n])"
proof -
  have "take (nat n) (drop (nat (c + 1)) b) = map (\<lambda>x. b ! nat (c + x)) [1..n]"
  proof (rule nth_equalityI)
    show "length (take (nat n) (drop (nat (c + 1)) b)) = length (map (\<lambda>x. b ! nat (c + x)) [1..n])"
      using assms by simp
  next
    fix i
    assume "i < length (take (nat n) (drop (nat (c + 1)) b))"
    then have i: "i < nat n" by simp
    then have "[1..n] ! i = 1 + int i" by (intro nth_upto) linarith
    moreover have "nat (c + 1) + i = nat (c + (1 + int i))" using assms by linarith
    ultimately show "take (nat n) (drop (nat (c + 1)) b) ! i = map (\<lambda>x. b ! nat (c + x)) [1..n] ! i"
      using i assms by simp
  qed
  with assms show ?thesis by (simp add: load_block_def)
qed

lemma save_rows_eq:
  assumes "0 < N g" "0 \<le> M g + 2" "(M g + 2) * N g + 1 + N g \<le> int (length (temp0 g))" "1 \<le> i"
  shows "save_rows i g out =
         Inr (out @ concat (map (\<lambda>iter. map (\<lambda>x. temp0 g ! nat ((M g + 2) * iter + x)) [1..N g]) [i..N g]))"
  using assms
proof (induction i g out rule: save_rows.induct)
  case (1 iter g out)
  show ?case
  proof (cases "iter \<le> N g")
    case True
    have "(M g + 2) * iter \<le> (M g + 2) * N g"
      using True "1.prems"(2) by (intro mult_left_mono) auto
    moreover have "0 \<le> (M g + 2) * iter" using "1.prems"(2,4) by simp
    ultimately have row: "load_block (temp0 g) ((M g + 2) * iter + 1) (N g) =
        Inr (map (\<lambda>x. temp0 g ! nat ((M g + 2) * iter + x)) [1..N g])"
      using "1.prems"(1,3) by (intro load_block_row) linarith+
    have "save_rows (iter + 1) g (out @ map (\<lambda>x. temp0 g ! nat ((M g + 2) * iter + x)) [1..N g]) =
        Inr ((out @ map (\<lambda>x. temp0 g ! nat ((M g + 2) * iter + x)) [1..N g]) @
          concat (map (\<lambda>iter. map (\<lambda>x. temp0 g ! nat ((M g + 2) * iter + x)) [1..N g]) [iter + 1..N g]))"
      using "1.prems" by (intro "1.IH" [OF True row]) auto
    moreover have "[iter..N g] = iter # [iter + 1..N g]" using True by (rule upto_rec1)
    ultimately show ?thesis using True row by (simp add: save_rows.simps [of iter])
  next
    case False
    then show ?thesis by (simp add: save_rows.simps [of iter])
  qed
qed

lemma domain_save_after_init:
  assumes one: "dims0 g = 1" "dims1 g = 1" "coord0 g = 0" "coord1 g = 0"
    and sq: "M g = N g" "0 < N g"
    and sf: "snapshot_frequency g \<noteq> 0"
    and op: "can_open g (filename (c_div iteration (snapshot_frequency g)))"
  shows "\<exists>s. err_bind (domain_init junk0 junk1 junk2 g) (domain_save iteration) = Inr s \<and>
           files s (filename (c_div iteration (snapshot_frequency g))) =
           Some (concat (map (\<lambda>y. map (\<lambda>x. 30 + 30 * sin (real_of_int (x + y) / 20)) [1..N g])
                   [1..N g]))"
proof -
  from one obtain s0 where d: "domain_init junk0 junk1 junk2 g = Inr s0"
    using domain_init_succeeds [of g junk0 junk1 junk2] by auto
  have p: "0 < dims1 g" using one by simp
  note sc = domain_init_scalars [OF d p]
  have lr: "local_row g = N g" and lc: "local_col g = N g"
    using one sq by (simp_all add: local_row_def local_col_def c_div_1)
  have off: "offset_x g = 0" "offset_y g = 0"
    using one by (simp_all add: offset_x_def offset_y_def)
  have "0 \<le> (N g + 2) * (N g + 2)" using sq by simp
  then have len: "int (length (temp0 s0)) = (N g + 2) * (N g + 2)"
    using domain_init_lengths(1) [OF d p] by (simp add: lr lc sizeof_real_t_def nat_mult_distrib)
  have fit: "(M s0 + 2) * N s0 + 1 + N s0 \<le> int (length (temp0 s0))"
    using sq by (simp add: len sc algebra_simps)
  have cell: "temp0 s0 ! nat ((M s0 + 2) * y + x) = 30 + 30 * sin (real_of_int (x + y) / 20)"
    if "x \<in> set [1..N g]" "y \<in> set [1..N g]" for x y
  proof -
    from that have r: "1 \<le> x" "x \<le> local_row g" "1 \<le> y" "y \<le> local_col g"
      by (simp_all add: lr lc)
    have "temp0 s0 ! nat (idx s0 x y) = init_temperature (offset_x g) (offset_y g) x y"
      using domain_init_interior(1) [OF d p r] by (simp add: T_def load_InrD)
    moreover have "idx s0 x y = (M s0 + 2) * y + x"
      by (simp add: idx_def sc sq mult.commute)
    ultimately show ?thesis by (simp add: init_temperature_def off)
  qed
  have "save_rows 1 s0 [] =
         Inr ([] @ concat (map (\<lambda>iter. map (\<lambda>x. temp0 s0 ! nat ((M s0 + 2) * iter + x)) [1..N s0]) [1..N s0]))"
    using sq fit by (intro save_rows_eq) (simp_all add: sc)
  also have "concat (map (\<lambda>iter. map (\<lambda>x. temp0 s0 ! nat ((M s0 + 2) * iter + x)) [1..N s0]) [1..N s0]) =
      concat (map (\<lambda>y. map (\<lambda>x. 30 + 30 * sin (real_of_int (x + y) / 20)) [1..N g]) [1..N g])"
    unfolding sc by (intro arg_cong [where f = concat] map_cong refl cell [unfolded sc])
  finally have rows: "save_rows 1 s0 [] =
      Inr (concat (map (\<lambda>y. map (\<lambda>x. 30 + 30 * sin (real_of_int (x + y) / 20)) [1..N g]) [1..N g]))"
    by simp
  show ?thesis
    using sf op by (simp add: d err_bind_def domain_save_def sc rows Let_def)
qed

lemma checkpoint_8x8_size:
  "sizeof_real_t *
   length (concat (map (\<lambda>y. map (\<lambda>x. 30 + 30 * sin (real_of_int (x + y) / 20)) [1..8]) [1..8])) = 512"
  by (simp add: sizeof_real_t_def length_concat comp_def sum_list_triv)

subsection \<open>The checkpoint file (claim C7)\<close>

text \<open>
  Claim C7 says that a checkpoint holds N rows of M columns of 8-byte values.
  \<^verbatim>\<open>domain_save\<close> writes N rows of N values each, read with the stride \<^verbatim>\<open>M + 2\<close>
  where the macros use \<^verbatim>\<open>N + 2\<close>. On one process with \<^verbatim>\<open>M = 4\<close>, \<^verbatim>\<open>N = 2\<close> the
  file \<^verbatim>\<open>data/00000.bin\<close> holds four values, 32 bytes where the field has 64, and the
  first two are halo cells.
\<close>

theorem domain_save_4x2_writes_2x2_values:
  "err_bind (err_bind (domain_init zero_mem zero_mem zero_mem (start 0 1 1 1 0 0 4 2 0 1)) (domain_save 0))
     (\<lambda>g. Inr (files g ''data/00000.bin'')) =
   Inr (Some [0, 0, 30 + 30 * sin (1 / 5), 30 + 30 * sin (1 / 4)]) \<and>
   sizeof_real_t * length [0, 0, 30 + 30 * sin (1 / 5), 30 + 30 * sin (1 / 4 :: real)] = 32 \<and>
   int sizeof_real_t * (N (start 0 1 1 1 0 0 4 2 0 1) * M (start 0 1 1 1 0 0 4 2 0 1)) = 64"
  by (simp add: model_defs for_loop.simps save_rows.simps filename_0 upt_rec Let_def)

subsection \<open>The initial checkpoint (claim C8)\<close>

text \<open>
  Claim C8, as amended: for \<^verbatim>\<open>M = N = 8\<close> on one process with
  \<^verbatim>\<open>snapshot_frequency = 1\<close>, whatever the fresh memory held, \<^verbatim>\<open>domain_save (0)\<close> on
  the field that \<^verbatim>\<open>domain_init\<close> leaves returns and writes the file
  \<^verbatim>\<open>data/00000.bin\<close>, which holds \<open>30 + 30 * sin ((x + y) / 20)\<close> for the cell
  coordinates \<open>x\<close> and \<open>y\<close> from 1 to 8, row after row (\<open>y\<close> outside, \<open>x\<close> inside):
  the coordinates count from 1, as the loops of \<^verbatim>\<open>domain_init\<close> do.
\<close>

theorem initial_checkpoint_8x8_one_indexed:
  "\<exists>s. err_bind (domain_init junk0 junk1 junk2 (start 0 1 1 1 0 0 8 8 0 1)) (domain_save 0) = Inr s \<and>
        files s ''data/00000.bin'' =
        Some (concat (map (\<lambda>y. map (\<lambda>x. 30 + 30 * sin (real_of_int (x + y) / 20)) [1..8]) [1..8]))"
  using domain_save_after_init [of "start 0 1 1 1 0 0 8 8 0 1" 0 junk0 junk1 junk2]
  by (simp add: start_def c_div_def filename_0)

text \<open>
  Claim C8 as stated fails in the scenario: the run of \<^verbatim>\<open>main\<close> leaves no file
  \<^verbatim>\<open>data/00000.bin\<close>, and the file that \<^verbatim>\<open>domain_save (0)\<close> writes after
  \<^verbatim>\<open>domain_init\<close> is not the zero-indexed table: it starts with
  \<open>30 + 30 * sin (2 / 20)\<close>, the table with 30.
\<close>

theorem initial_checkpoint_8x8_not_zero_indexed:
  "err_bind (main zero_mem zero_mem zero_mem (start 0 1 1 1 0 0 8 8 0 1))
     (saved ''data/00000.bin'') = Inr None \<and>
   err_bind (err_bind (domain_init zero_mem zero_mem zero_mem (start 0 1 1 1 0 0 8 8 0 1)) (domain_save 0))
     (saved ''data/00000.bin'') \<noteq> Inr (Some spec_initial_condition_8x8)"
proof
  let ?g = "start 0 1 1 1 0 0 8 8 0 1"
  from main_writes_no_file [of ?g zero_mem zero_mem zero_mem]
  obtain s where "main zero_mem zero_mem zero_mem ?g = Inr s" "files s = files ?g"
    by (auto simp: start_def)
  then show "err_bind (main zero_mem zero_mem zero_mem ?g) (saved ''data/00000.bin'') = Inr None"
    by (simp add: err_bind_def saved_def start_def)
next
  let ?g = "start 0 1 1 1 0 0 8 8 0 1"
  let ?c = "concat (map (\<lambda>y. map (\<lambda>x. 30 + 30 * sin (real_of_int (x + y) / 20)) [1..8]) [1..8])"
  from domain_save_after_init [of ?g 0 zero_mem zero_mem zero_mem]
  obtain s where s: "err_bind (domain_init zero_mem zero_mem zero_mem ?g) (domain_save 0) = Inr s"
    "files s ''data/00000.bin'' = Some ?c"
    by (auto simp: start_def c_div_def filename_0)
  have "0 < sin (1 / 10 :: real)" by (rule sin_pos_small) simp_all
  then have "hd ?c \<noteq> hd spec_initial_condition_8x8"
    by (simp add: spec_initial_condition_8x8_def upto_rec1)
  then have "?c \<noteq> spec_initial_condition_8x8" by auto
  with s show "err_bind (err_bind (domain_init zero_mem zero_mem zero_mem ?g) (domain_save 0))
     (saved ''data/00000.bin'') \<noteq> Inr (Some spec_initial_condition_8x8)"
    by (simp add: err_bind_def saved_def)
qed

end
